theory Spec2Isabelle
  imports Main "HOL-Library.Sublist"
begin

section \<open>Strings as Python sees them\<close>

text \<open>
  Python \<open>str\<close> values are modelled as \<open>string\<close> (a list of \<open>char\<close>). A \<open>char\<close> is the
  code point of the same number, U+0000 to U+00FF, so the strings of the model are the
  texts over Latin-1, and the classes below are what \<open>str.split\<close>, \<open>str.lower\<close> and the
  classes \<open>\w\<close>, \<open>\s\<close>, \<open>\S\<close>, \<open>\d\<close> of a \<open>str\<close> pattern make of these code
  points. Above U+007F the whitespace is U+0085 and U+00A0; the word characters are the
  letters (U+00AA, U+00B5, U+00BA, U+00C0 to U+00FF without the two signs U+00D7 and
  U+00F7) and the number characters (U+00B2, U+00B3, U+00B9, U+00BC to U+00BE); no
  decimal digit lies there; and \<open>lower\<close> moves the capital letters U+00C0 to U+00DE
  (without U+00D7) up by 32. Text with a code point above U+00FF is outside the model.
\<close>

definition dq :: char where
  "dq = CHR 0x22"

definition is_space :: "char \<Rightarrow> bool" where
  "is_space c = (c \<in> set [CHR 0x09, CHR 0x0A, CHR 0x0B, CHR 0x0C, CHR 0x0D,
                            CHR 0x1C, CHR 0x1D, CHR 0x1E, CHR 0x1F, CHR 0x20,
                            CHR 0x85, CHR 0xA0])"

definition is_digit :: "char \<Rightarrow> bool" where
  "is_digit c = (c \<in> set ''0123456789'')"

text \<open>The word characters and the capital letters above U+007F, and the small
  letters of these capitals, in the same order.\<close>

definition latin1_word :: string where
  "latin1_word =
     [CHR 0xAA, CHR 0xB2, CHR 0xB3, CHR 0xB5, CHR 0xB9, CHR 0xBA, CHR 0xBC,
      CHR 0xBD, CHR 0xBE, CHR 0xC0, CHR 0xC1, CHR 0xC2, CHR 0xC3, CHR 0xC4,
      CHR 0xC5, CHR 0xC6, CHR 0xC7, CHR 0xC8, CHR 0xC9, CHR 0xCA, CHR 0xCB,
      CHR 0xCC, CHR 0xCD, CHR 0xCE, CHR 0xCF, CHR 0xD0, CHR 0xD1, CHR 0xD2,
      CHR 0xD3, CHR 0xD4, CHR 0xD5, CHR 0xD6, CHR 0xD8, CHR 0xD9, CHR 0xDA,
      CHR 0xDB, CHR 0xDC, CHR 0xDD, CHR 0xDE, CHR 0xDF, CHR 0xE0, CHR 0xE1,
      CHR 0xE2, CHR 0xE3, CHR 0xE4, CHR 0xE5, CHR 0xE6, CHR 0xE7, CHR 0xE8,
      CHR 0xE9, CHR 0xEA, CHR 0xEB, CHR 0xEC, CHR 0xED, CHR 0xEE, CHR 0xEF,
      CHR 0xF0, CHR 0xF1, CHR 0xF2, CHR 0xF3, CHR 0xF4, CHR 0xF5, CHR 0xF6,
      CHR 0xF8, CHR 0xF9, CHR 0xFA, CHR 0xFB, CHR 0xFC, CHR 0xFD, CHR 0xFE,
      CHR 0xFF]"

definition latin1_upper :: string where
  "latin1_upper =
     [CHR 0xC0, CHR 0xC1, CHR 0xC2, CHR 0xC3, CHR 0xC4, CHR 0xC5, CHR 0xC6,
      CHR 0xC7, CHR 0xC8, CHR 0xC9, CHR 0xCA, CHR 0xCB, CHR 0xCC, CHR 0xCD,
      CHR 0xCE, CHR 0xCF, CHR 0xD0, CHR 0xD1, CHR 0xD2, CHR 0xD3, CHR 0xD4,
      CHR 0xD5, CHR 0xD6, CHR 0xD8, CHR 0xD9, CHR 0xDA, CHR 0xDB, CHR 0xDC,
      CHR 0xDD, CHR 0xDE]"

definition latin1_lower :: string where
  "latin1_lower =
     [CHR 0xE0, CHR 0xE1, CHR 0xE2, CHR 0xE3, CHR 0xE4, CHR 0xE5, CHR 0xE6,
      CHR 0xE7, CHR 0xE8, CHR 0xE9, CHR 0xEA, CHR 0xEB, CHR 0xEC, CHR 0xED,
      CHR 0xEE, CHR 0xEF, CHR 0xF0, CHR 0xF1, CHR 0xF2, CHR 0xF3, CHR 0xF4,
      CHR 0xF5, CHR 0xF6, CHR 0xF8, CHR 0xF9, CHR 0xFA, CHR 0xFB, CHR 0xFC,
      CHR 0xFD, CHR 0xFE]"

text \<open>\<open>digit7 c\<close> is the top bit of the code point: the character is above U+007F.\<close>

definition is_word :: "char \<Rightarrow> bool" where
  "is_word c =
     (if digit7 c then c \<in> set latin1_word
      else c \<in> set ''abcdefghijklmnopqrstuvwxyzABCDEFGHIJKLMNOPQRSTUVWXYZ0123456789_'')"

definition lower_char :: "char \<Rightarrow> char" where
  "lower_char c =
     (case map_of (if digit7 c then zip latin1_upper latin1_lower
                   else zip ''ABCDEFGHIJKLMNOPQRSTUVWXYZ'' ''abcdefghijklmnopqrstuvwxyz'') c of
        Some l \<Rightarrow> l
      | None \<Rightarrow> c)"

definition lower :: "string \<Rightarrow> string" where
  "lower s = map lower_char s"

text \<open>
  \<open>content.split(maxsplit=1)\<close>: leading whitespace is skipped, the first run of
  non-whitespace is the first part, the whitespace after it is skipped, and whatever
  is left (trailing whitespace included) is the second part, when it is not empty.
\<close>

definition split_maxsplit1 :: "string \<Rightarrow> string list" where
  "split_maxsplit1 content =
     (let s = dropWhile is_space content in
      if s = [] then []
      else let first = takeWhile (\<lambda>c. \<not> is_space c) s;
               rest = dropWhile is_space (dropWhile (\<lambda>c. \<not> is_space c) s)
           in if rest = [] then [first] else [first, rest])"

text \<open>
  \<open>text.replace(old, "")\<close>: every non-overlapping occurrence of \<open>old\<close>, found from
  the left, is deleted. An empty \<open>old\<close> leaves the text as it is.
\<close>

function str_remove :: "string \<Rightarrow> string \<Rightarrow> string" where
  "str_remove old [] = []"
| "str_remove old (c # cs) =
     (if old \<noteq> [] \<and> prefix old (c # cs)
      then str_remove old (drop (length old) (c # cs))
      else c # str_remove old cs)"
  by pat_completeness auto
termination
  by (relation "measure (\<lambda>(old, s). length s)") auto

section \<open>The command-argument parser\<close>

text \<open>
  A dictionary is an association list with one entry per key, in insertion order;
  \<open>dict_set\<close> is Python's \<open>d[k] = v\<close>.
\<close>

type_synonym dict = "(string \<times> string) list"

fun dict_set :: "string \<Rightarrow> string \<Rightarrow> dict \<Rightarrow> dict" where
  "dict_set k v [] = [(k, v)]"
| "dict_set k v ((k', v') # d) =
     (if k = k' then (k, v) # d else (k', v') # dict_set k v d)"

definition dict_get :: "dict \<Rightarrow> string \<Rightarrow> string option" where
  "dict_get d k = map_of d k"

definition dict_has :: "dict \<Rightarrow> string \<Rightarrow> bool" where
  "dict_has d k = (map_of d k \<noteq> None)"

text \<open>
  One attempt of the pattern \<open>(\w+)="([^"]*)"\<close> at the head of the text. The greedy
  \<open>\w+\<close> can only succeed with the whole run of word characters (a shorter run is
  followed by a word character, not by \<open>=\<close>), and \<open>[^"]*\<close> only with everything up
  to the next double quote. The result is the key, the value and the text after the
  match.
\<close>

definition match_quoted :: "string \<Rightarrow> (string \<times> string \<times> string) option" where
  "match_quoted s =
     (let k = takeWhile is_word s; r = dropWhile is_word s in
      if k = [] then None
      else (case r of
              e # q # r2 \<Rightarrow>
                if e = CHR ''='' \<and> q = dq then
                  (case dropWhile (\<lambda>c. c \<noteq> dq) r2 of
                     [] \<Rightarrow> None
                   | _ # r3 \<Rightarrow> Some (k, takeWhile (\<lambda>c. c \<noteq> dq) r2, r3))
                else None
            | _ \<Rightarrow> None))"

text \<open>One attempt of the pattern \<open>(\w+)=(\S+)\<close> at the head of the text.\<close>

definition match_unquoted :: "string \<Rightarrow> (string \<times> string \<times> string) option" where
  "match_unquoted s =
     (let k = takeWhile is_word s; r = dropWhile is_word s in
      if k = [] then None
      else (case r of
              e # r2 \<Rightarrow>
                if e = CHR ''='' \<and> takeWhile (\<lambda>c. \<not> is_space c) r2 \<noteq> [] then
                  Some (k, takeWhile (\<lambda>c. \<not> is_space c) r2,
                        dropWhile (\<lambda>c. \<not> is_space c) r2)
                else None
            | _ \<Rightarrow> None))"

lemma match_quoted_shorter:
  "match_quoted s = Some (k, v, r) \<Longrightarrow> length r < length s"
proof -
  assume m: "match_quoted s = Some (k, v, r)"
  then obtain r2 where r2: "dropWhile is_word s = CHR ''='' # dq # r2"
    and d: "dropWhile (\<lambda>c. c \<noteq> dq) r2 = dq # r \<or> (\<exists>x. dropWhile (\<lambda>c. c \<noteq> dq) r2 = x # r)"
    by (auto simp: match_quoted_def Let_def split: if_splits list.splits)
  from d obtain x where "dropWhile (\<lambda>c. c \<noteq> dq) r2 = x # r" by auto
  then have "length r < length r2"
    using length_dropWhile_le [of "\<lambda>c. c \<noteq> dq" r2] by simp
  moreover have "length r2 < length s"
    using length_dropWhile_le [of is_word s] r2 by simp
  ultimately show ?thesis by simp
qed

lemma match_unquoted_shorter:
  "match_unquoted s = Some (k, v, r) \<Longrightarrow> length r < length s"
proof -
  assume m: "match_unquoted s = Some (k, v, r)"
  then obtain r2 where r2: "dropWhile is_word s = CHR ''='' # r2"
    and r: "r = dropWhile (\<lambda>c. \<not> is_space c) r2"
    by (auto simp: match_unquoted_def Let_def split: if_splits list.splits)
  have "length r \<le> length r2"
    using length_dropWhile_le [of "\<lambda>c. \<not> is_space c" r2] r by simp
  moreover have "length r2 < length s"
    using length_dropWhile_le [of is_word s] r2 by simp
  ultimately show ?thesis by simp
qed

text \<open>
  \<open>pattern.finditer(text)\<close>: the matches from left to right, each search starting
  where the previous match ended; a position with no match is skipped by one
  character. Each quoted match is returned as (key, value).
\<close>

function quoted_finditer :: "string \<Rightarrow> (string \<times> string) list" where
  "quoted_finditer [] = []"
| "quoted_finditer (c # cs) =
     (case match_quoted (c # cs) of
        Some (k, v, r) \<Rightarrow> (k, v) # quoted_finditer r
      | None \<Rightarrow> quoted_finditer cs)"
  by pat_completeness auto
termination
  by (relation "measure length") (auto dest: match_quoted_shorter)

function unquoted_finditer :: "string \<Rightarrow> (string \<times> string) list" where
  "unquoted_finditer [] = []"
| "unquoted_finditer (c # cs) =
     (case match_unquoted (c # cs) of
        Some (k, v, r) \<Rightarrow> (k, v) # unquoted_finditer r
      | None \<Rightarrow> unquoted_finditer cs)"
  by pat_completeness auto
termination
  by (relation "measure length") (auto dest: match_unquoted_shorter)

text \<open>The text of a quoted match, \<open>match.group(0)\<close>.\<close>

definition quoted_group0 :: "string \<Rightarrow> string \<Rightarrow> string" where
  "quoted_group0 k v = k @ [CHR ''='', dq] @ v @ [dq]"

text \<open>
  The first loop of \<open>parse_command_args\<close>: the iterator runs over the text as it was
  when the loop started, while each step stores the value under the lower-cased key
  and deletes every occurrence of the matched text from the working text.
\<close>

fun quoted_pass :: "(string \<times> string) list \<Rightarrow> dict \<times> string \<Rightarrow> dict \<times> string" where
  "quoted_pass [] (args, args_text) = (args, args_text)"
| "quoted_pass ((k, v) # ms) (args, args_text) =
     quoted_pass ms (dict_set (lower k) v args, str_remove (quoted_group0 k v) args_text)"

fun unquoted_pass :: "(string \<times> string) list \<Rightarrow> dict \<Rightarrow> dict" where
  "unquoted_pass [] args = args"
| "unquoted_pass ((k, v) # ms) args = unquoted_pass ms (dict_set (lower k) v args)"

definition parse_command_args :: "string \<Rightarrow> dict" where
  "parse_command_args content =
     (case split_maxsplit1 content of
        [_, args_text0] \<Rightarrow>
          (let (args, args_text) = quoted_pass (quoted_finditer args_text0) ([], args_text0)
           in unquoted_pass (unquoted_finditer args_text) args)
      | _ \<Rightarrow> [])"

subsection \<open>Texts made of quoted tokens\<close>

text \<open>
  The shape of an argument text in which every double quote belongs to a token
  \<open>k="v"\<close>. A segment is the text before a token, the token's key and its value;
  \<open>segments_text\<close> is the text the segments spell, followed by the text after the last
  token, and \<open>separators_text\<close> is the same text without the tokens. In a
  well-separated text no separator holds a double quote, each key is a non-empty run
  of word characters that no word character precedes, no value holds a double quote,
  and the text of a token does not occur again in what follows the token.
  \<open>quoted_dict\<close> stores each token's value under its lower-cased key, in order.
\<close>

type_synonym segment = "string \<times> string \<times> string"

fun segments_text :: "segment list \<Rightarrow> string \<Rightarrow> string" where
  "segments_text [] post = post"
| "segments_text ((sep, k, v) # segs) post = sep @ quoted_group0 k v @ segments_text segs post"

fun separators_text :: "segment list \<Rightarrow> string \<Rightarrow> string" where
  "separators_text [] post = post"
| "separators_text ((sep, k, v) # segs) post = sep @ separators_text segs post"

fun well_separated :: "segment list \<Rightarrow> string \<Rightarrow> bool" where
  "well_separated [] post = (dq \<notin> set post)"
| "well_separated ((sep, k, v) # segs) post =
     (dq \<notin> set sep \<and> (sep = [] \<or> \<not> is_word (last sep))
      \<and> k \<noteq> [] \<and> (\<forall>c \<in> set k. is_word c) \<and> dq \<notin> set v
      \<and> \<not> sublist (quoted_group0 k v) (segments_text segs post)
      \<and> well_separated segs post)"

definition quoted_dict :: "segment list \<Rightarrow> dict" where
  "quoted_dict segs = fold (\<lambda>(sep, k, v). dict_set (lower k) v) segs []"

section \<open>Library functions the handlers call\<close>

datatype py_exception = ValueError | IndexError | TypeError | OverflowError

text \<open>
  \<open>int(s)\<close> on a string: the whitespace \<open>int\<close> strips from both ends is tab, line
  feed, vertical tab, form feed, carriage return and blank, and U+0085 and U+00A0 (which
  it turns into blanks first), not the separators U+001C to U+001F; one sign is
  allowed, the digits are the ASCII digits and may be grouped by single underscores,
  and more digits than the interpreter's limit (4300, unless configured otherwise) are
  refused. \<open>None\<close> stands for \<open>ValueError\<close>.
\<close>

definition digit_val :: "char \<Rightarrow> nat" where
  "digit_val c = of_char c - 48"

fun digits_acc :: "int \<Rightarrow> string \<Rightarrow> int option" where
  "digits_acc n [] = Some n"
| "digits_acc n (c # cs) =
     (if is_digit c then digits_acc (10 * n + int (digit_val c)) cs
      else if c = CHR ''_'' \<and> cs \<noteq> [] \<and> is_digit (hd cs) then digits_acc n cs
      else None)"

definition digits_value :: "string \<Rightarrow> int option" where
  "digits_value s = (case s of [] \<Rightarrow> None | c # _ \<Rightarrow> if is_digit c then digits_acc 0 s else None)"

definition is_int_space :: "char \<Rightarrow> bool" where
  "is_int_space c = (c \<in> set [CHR 0x09, CHR 0x0A, CHR 0x0B, CHR 0x0C, CHR 0x0D, CHR 0x20,
                                CHR 0x85, CHR 0xA0])"

definition strip_int_space :: "string \<Rightarrow> string" where
  "strip_int_space s = rev (dropWhile is_int_space (rev (dropWhile is_int_space s)))"

definition int_max_str_digits :: nat where
  "int_max_str_digits = 4300"

definition py_int :: "string \<Rightarrow> int option" where
  "py_int s =
     (case strip_int_space s of
        [] \<Rightarrow> None
      | c # r \<Rightarrow>
          let body = (if c = CHR ''-'' \<or> c = CHR ''+'' then r else c # r) in
          if int_max_str_digits < length (filter is_digit body) then None
          else if c = CHR ''-'' then map_option uminus (digits_value body)
          else digits_value body)"

text \<open>
  An integer parameter of an SQL statement is bound as a signed 64-bit integer. For a
  Python \<open>int\<close> outside that range the binding raises \<open>OverflowError\<close>; this is not an
  \<open>sqlite3.Error\<close>, so \<open>Database.execute\<close> does not catch it, the statement does not
  run, and the exception leaves the method of \<open>Database\<close> that made the call.
\<close>

definition sqlite_int :: "int \<Rightarrow> bool" where
  "sqlite_int n = (- (2 ^ 63) \<le> n \<and> n < 2 ^ 63)"

definition bindable :: "int option \<Rightarrow> bool" where
  "bindable v = (case v of None \<Rightarrow> True | Some n \<Rightarrow> sqlite_int n)"

text \<open>\<open>re.findall(r"\d+", s)[0]\<close>: the first run of digits; \<open>None\<close> stands for \<open>IndexError\<close>.\<close>

definition first_digits :: "string \<Rightarrow> string option" where
  "first_digits s =
     (let r = dropWhile (\<lambda>c. \<not> is_digit c) s in
      if r = [] then None else Some (takeWhile is_digit r))"

subsection \<open>Naive date-times\<close>

record datetime =
  dt_year :: nat
  dt_month :: nat
  dt_day :: nat
  dt_hour :: nat
  dt_minute :: nat
  dt_second :: nat
  dt_microsecond :: nat

fun lex_less :: "nat list \<Rightarrow> nat list \<Rightarrow> bool" where
  "lex_less (x # xs) (y # ys) = (x < y \<or> (x = y \<and> lex_less xs ys))"
| "lex_less _ _ = False"

definition dt_fields :: "datetime \<Rightarrow> nat list" where
  "dt_fields d = [dt_year d, dt_month d, dt_day d, dt_hour d, dt_minute d, dt_second d,
                  dt_microsecond d]"

text \<open>\<open>a < b\<close> on two naive date-times: the fields compared in order.\<close>

definition dt_less :: "datetime \<Rightarrow> datetime \<Rightarrow> bool" where
  "dt_less a b = lex_less (dt_fields a) (dt_fields b)"

definition is_leap :: "nat \<Rightarrow> bool" where
  "is_leap y = (y mod 4 = 0 \<and> (y mod 400 = 0 \<or> y mod 100 \<noteq> 0))"

definition days_in_month :: "nat \<Rightarrow> nat \<Rightarrow> nat" where
  "days_in_month y m =
     (if m = 2 then (if is_leap y then 29 else 28)
      else if m \<in> {4, 6, 9, 11} then 30 else 31)"

definition valid_date :: "nat \<Rightarrow> nat \<Rightarrow> nat \<Rightarrow> bool" where
  "valid_date y m d =
     (1 \<le> y \<and> y \<le> 9999 \<and> 1 \<le> m \<and> m \<le> 12 \<and> 1 \<le> d \<and> d \<le> days_in_month y m)"

text \<open>
  \<open>datetime.strptime\<close> for the three formats the handlers use. The library turns
  each directive into a group of alternatives tried in order (\<open>%m\<close> is
  \<open>1[0-2]|0[1-9]|[1-9]\<close>, and so on), a blank of the format into \<open>\s+\<close>, matches at
  the start of the string and raises \<open>ValueError\<close> when nothing matches, when text is
  left over, or when the date does not exist. A parser here returns every way of
  matching, best first, each with the remaining text.
\<close>

type_synonym 'a parses = "('a \<times> string) list"

definition in_range :: "char \<Rightarrow> nat \<Rightarrow> nat \<Rightarrow> bool" where
  "in_range c lo hi = (is_digit c \<and> lo \<le> digit_val c \<and> digit_val c \<le> hi)"

definition two_digits :: "nat \<Rightarrow> nat \<Rightarrow> nat \<Rightarrow> nat \<Rightarrow> string \<Rightarrow> nat parses" where
  "two_digits lo1 hi1 lo2 hi2 s =
     (case s of
        a # b # r \<Rightarrow>
          if in_range a lo1 hi1 \<and> in_range b lo2 hi2
          then [(10 * digit_val a + digit_val b, r)] else []
      | _ \<Rightarrow> [])"

definition one_digit :: "nat \<Rightarrow> nat \<Rightarrow> string \<Rightarrow> nat parses" where
  "one_digit lo hi s =
     (case s of a # r \<Rightarrow> if in_range a lo hi then [(digit_val a, r)] else [] | _ \<Rightarrow> [])"

definition lit :: "char \<Rightarrow> string \<Rightarrow> string list" where
  "lit c s = (case s of a # r \<Rightarrow> if a = c then [r] else [] | _ \<Rightarrow> [])"

definition re_Y :: "string \<Rightarrow> nat parses" where
  "re_Y s =
     (case s of
        a # b # c # d # r \<Rightarrow>
          if is_digit a \<and> is_digit b \<and> is_digit c \<and> is_digit d
          then [(1000 * digit_val a + 100 * digit_val b + 10 * digit_val c + digit_val d, r)]
          else []
      | _ \<Rightarrow> [])"

definition re_m :: "string \<Rightarrow> nat parses" where
  "re_m s = two_digits 1 1 0 2 s @ two_digits 0 0 1 9 s @ one_digit 1 9 s"

definition re_d :: "string \<Rightarrow> nat parses" where
  "re_d s = two_digits 3 3 0 1 s @ two_digits 1 2 0 9 s @ two_digits 0 0 1 9 s @ one_digit 1 9 s
            @ concat (map (one_digit 1 9) (lit CHR '' '' s))"

definition re_H :: "string \<Rightarrow> nat parses" where
  "re_H s = two_digits 2 2 0 3 s @ two_digits 0 1 0 9 s @ one_digit 0 9 s"

definition re_M :: "string \<Rightarrow> nat parses" where
  "re_M s = two_digits 0 5 0 9 s @ one_digit 0 9 s"

text \<open>\<open>\s+\<close>, greedy: the longest run of whitespace first, then the shorter ones.\<close>

fun re_spaces0 :: "string \<Rightarrow> string list" where
  "re_spaces0 [] = [[]]"
| "re_spaces0 (c # cs) = (if is_space c then re_spaces0 cs @ [c # cs] else [c # cs])"

definition re_spaces :: "string \<Rightarrow> string list" where
  "re_spaces s = (case s of [] \<Rightarrow> [] | c # cs \<Rightarrow> if is_space c then re_spaces0 cs else [])"

definition re_date :: "string \<Rightarrow> (nat \<times> nat \<times> nat) parses" where
  "re_date s =
     concat (map (\<lambda>(y, s1). concat (map (\<lambda>s2.
       concat (map (\<lambda>(m, s3). concat (map (\<lambda>s4.
         map (\<lambda>(d, s5). ((y, m, d), s5)) (re_d s4)) (lit CHR ''-'' s3))) (re_m s2)))
       (lit CHR ''-'' s1))) (re_Y s))"

definition re_time :: "string \<Rightarrow> (nat \<times> nat) parses" where
  "re_time s =
     concat (map (\<lambda>(h, s1). concat (map (\<lambda>s2.
       map (\<lambda>(mi, s3). ((h, mi), s3)) (re_M s2)) (lit CHR '':'' s1))) (re_H s))"

text \<open>\<open>strptime(s, "%Y-%m-%d")\<close>, \<open>strptime(s, "%H:%M")\<close> and
  \<open>strptime(s, "%Y-%m-%d %H:%M")\<close>; \<open>None\<close> stands for \<open>ValueError\<close>.\<close>

definition strptime_date :: "string \<Rightarrow> datetime option" where
  "strptime_date s =
     (case re_date s of
        ((y, m, d), r) # _ \<Rightarrow>
          if r = [] \<and> valid_date y m d
          then Some \<lparr>dt_year = y, dt_month = m, dt_day = d, dt_hour = 0, dt_minute = 0,
                     dt_second = 0, dt_microsecond = 0\<rparr>
          else None
      | [] \<Rightarrow> None)"

definition strptime_time :: "string \<Rightarrow> datetime option" where
  "strptime_time s =
     (case re_time s of
        ((h, mi), r) # _ \<Rightarrow>
          if r = []
          then Some \<lparr>dt_year = 1900, dt_month = 1, dt_day = 1, dt_hour = h, dt_minute = mi,
                     dt_second = 0, dt_microsecond = 0\<rparr>
          else None
      | [] \<Rightarrow> None)"

definition strptime_datetime :: "string \<Rightarrow> datetime option" where
  "strptime_datetime s =
     (case concat (map (\<lambda>(ymd, s1). concat (map (\<lambda>s2.
             map (\<lambda>(hm, s3). ((ymd, hm), s3)) (re_time s2)) (re_spaces s1))) (re_date s)) of
        (((y, m, d), (h, mi)), r) # _ \<Rightarrow>
          if r = [] \<and> valid_date y m d
          then Some \<lparr>dt_year = y, dt_month = m, dt_day = d, dt_hour = h, dt_minute = mi,
                     dt_second = 0, dt_microsecond = 0\<rparr>
          else None
      | [] \<Rightarrow> None)"

section \<open>The database\<close>

text \<open>
  The tables the handlers read and write, each a list of rows in rowid order. The
  schema file is not among the sources; the \<open>ON CONFLICT\<close> clauses of the queries
  name the keys it makes unique: \<open>user_id\<close> in Users, \<open>(group_id, user_id)\<close> in
  GroupMembers and \<open>(event_id, user_id)\<close> in EventAttendees. A statement whose
  parameters can be bound is taken to succeed (\<open>Database.execute\<close> returns a cursor),
  and a date-time column holds the date-time whose ISO text the code stores.
\<close>

record group_row =
  group_id :: nat
  group_name :: string
  group_description :: string
  is_open :: bool
  channel_id :: string
  new_members_can_create_events :: bool
  event_approval_mode :: string
  event_attendee_management_mode :: string
  contributor_events_required :: "int option"

record member_row =
  gm_group_id :: nat
  gm_user_id :: string
  is_leader :: bool

record event_row =
  event_id :: nat
  ev_group_id :: nat
  host_id :: string
  ev_name :: string
  date_time :: datetime
  location_name :: string
  location_address :: string
  ev_description :: string
  max_attendees :: "int option"
  is_public :: bool
  status :: string
  thread_id :: "string option"

record attendee_row =
  ea_event_id :: nat
  ea_user_id :: string
  rsvp_status :: string

record database =
  users :: "string list"
  groups :: "group_row list"
  group_members :: "member_row list"
  events :: "event_row list"
  event_attendees :: "attendee_row list"

subsection \<open>Users, groups and members\<close>

text \<open>\<open>INSERT INTO Users (user_id) VALUES (?) ON CONFLICT DO NOTHING\<close>\<close>

definition create_user :: "database \<Rightarrow> string \<Rightarrow> database" where
  "create_user db uid = (if uid \<in> set (users db) then db else db\<lparr>users := users db @ [uid]\<rparr>)"

definition get_group :: "database \<Rightarrow> nat \<Rightarrow> group_row option" where
  "get_group db gid = find (\<lambda>g. group_id g = gid) (groups db)"

definition get_group_by_name :: "database \<Rightarrow> string \<Rightarrow> group_row option" where
  "get_group_by_name db n = find (\<lambda>g. group_name g = n) (groups db)"

definition next_id :: "nat list \<Rightarrow> nat" where
  "next_id ids = Suc (fold max ids 0)"

text \<open>
  \<open>create_group\<close>: the new row gets the next rowid, which is returned. The one integer
  among the values is \<open>contributor_events_required\<close>.
\<close>

definition create_group :: "database \<Rightarrow> group_row \<Rightarrow> py_exception + nat \<times> database" where
  "create_group db data =
     (if \<not> bindable (contributor_events_required data) then Inl OverflowError
      else let gid = next_id (map group_id (groups db))
           in Inr (gid, db\<lparr>groups := groups db @ [data\<lparr>group_id := gid\<rparr>]\<rparr>))"

definition is_group_member :: "database \<Rightarrow> nat \<Rightarrow> string \<Rightarrow> bool" where
  "is_group_member db gid uid =
     (find (\<lambda>m. gm_group_id m = gid \<and> gm_user_id m = uid) (group_members db) \<noteq> None)"

definition is_group_leader :: "database \<Rightarrow> nat \<Rightarrow> string \<Rightarrow> bool" where
  "is_group_leader db gid uid =
     (find (\<lambda>m. gm_group_id m = gid \<and> gm_user_id m = uid \<and> is_leader m) (group_members db)
        \<noteq> None)"

text \<open>\<open>INSERT INTO GroupMembers ... ON CONFLICT DO NOTHING\<close>\<close>

definition add_group_member :: "database \<Rightarrow> nat \<Rightarrow> string \<Rightarrow> bool \<Rightarrow> database" where
  "add_group_member db gid uid leader =
     (if is_group_member db gid uid then db
      else db\<lparr>group_members := group_members db
             @ [\<lparr>gm_group_id = gid, gm_user_id = uid, is_leader = leader\<rparr>]\<rparr>)"

definition remove_group_member :: "database \<Rightarrow> nat \<Rightarrow> string \<Rightarrow> database" where
  "remove_group_member db gid uid =
     db\<lparr>group_members :=
          filter (\<lambda>m. \<not> (gm_group_id m = gid \<and> gm_user_id m = uid)) (group_members db)\<rparr>"

text \<open>\<open>SELECT * FROM GroupMembers WHERE group_id = ? AND is_leader = 1\<close>\<close>

definition group_leaders :: "database \<Rightarrow> nat \<Rightarrow> member_row list" where
  "group_leaders db gid = filter (\<lambda>m. gm_group_id m = gid \<and> is_leader m) (group_members db)"

subsection \<open>Events and attendees\<close>

text \<open>\<open>create_event\<close>: the one integer among the values is \<open>max_attendees\<close>.\<close>

definition create_event :: "database \<Rightarrow> event_row \<Rightarrow> py_exception + nat \<times> database" where
  "create_event db data =
     (if \<not> bindable (max_attendees data) then Inl OverflowError
      else let eid = next_id (map event_id (events db))
           in Inr (eid, db\<lparr>events := events db @ [data\<lparr>event_id := eid\<rparr>]\<rparr>))"

definition get_event :: "database \<Rightarrow> nat \<Rightarrow> event_row option" where
  "get_event db eid = find (\<lambda>e. event_id e = eid) (events db)"

text \<open>
  The columns an \<open>update_event\<close> call may set: the dictionary the handler passes,
  with \<open>None\<close> for a key it does not hold.
\<close>

record event_patch =
  p_name :: "string option"
  p_description :: "string option"
  p_location_name :: "string option"
  p_location_address :: "string option"
  p_max_attendees :: "int option"
  p_date_time :: "datetime option"
  p_thread_id :: "string option"
  p_host_id :: "string option"

definition no_patch :: event_patch where
  "no_patch = \<lparr>p_name = None, p_description = None, p_location_name = None,
               p_location_address = None, p_max_attendees = None, p_date_time = None,
               p_thread_id = None, p_host_id = None\<rparr>"

definition set_opt :: "'a option \<Rightarrow> 'a \<Rightarrow> 'a" where
  "set_opt new old = (case new of Some v \<Rightarrow> v | None \<Rightarrow> old)"

definition apply_patch :: "event_patch \<Rightarrow> event_row \<Rightarrow> event_row" where
  "apply_patch p e =
     e\<lparr>ev_name := set_opt (p_name p) (ev_name e),
       ev_description := set_opt (p_description p) (ev_description e),
       location_name := set_opt (p_location_name p) (location_name e),
       location_address := set_opt (p_location_address p) (location_address e),
       max_attendees := (case p_max_attendees p of Some n \<Rightarrow> Some n | None \<Rightarrow> max_attendees e),
       date_time := set_opt (p_date_time p) (date_time e),
       thread_id := (case p_thread_id p of Some t \<Rightarrow> Some t | None \<Rightarrow> thread_id e),
       host_id := set_opt (p_host_id p) (host_id e)\<rparr>"

text \<open>
  \<open>update_event\<close>: \<open>False\<close> and no statement for an empty dictionary; \<open>OverflowError\<close>
  and no statement when \<open>max_attendees\<close> cannot be bound.
\<close>

definition update_event ::
    "database \<Rightarrow> nat \<Rightarrow> event_patch \<Rightarrow> py_exception + bool \<times> database" where
  "update_event db eid p =
     (if p = no_patch then Inr (False, db)
      else if \<not> bindable (p_max_attendees p) then Inl OverflowError
      else Inr (True, db\<lparr>events := map (\<lambda>e. if event_id e = eid then apply_patch p e else e)
                                         (events db)\<rparr>))"

text \<open>
  \<open>INSERT INTO EventAttendees ... ON CONFLICT(event_id, user_id) DO UPDATE SET
  rsvp_status = ?\<close>: a row of the pair keeps its place and takes the new status;
  otherwise a row is appended.
\<close>

definition add_event_attendee :: "database \<Rightarrow> nat \<Rightarrow> string \<Rightarrow> string \<Rightarrow> database" where
  "add_event_attendee db eid uid st =
     (if find (\<lambda>a. ea_event_id a = eid \<and> ea_user_id a = uid) (event_attendees db) \<noteq> None
      then db\<lparr>event_attendees :=
                map (\<lambda>a. if ea_event_id a = eid \<and> ea_user_id a = uid
                          then a\<lparr>rsvp_status := st\<rparr> else a) (event_attendees db)\<rparr>
      else db\<lparr>event_attendees := event_attendees db
                @ [\<lparr>ea_event_id = eid, ea_user_id = uid, rsvp_status = st\<rparr>]\<rparr>)"

definition remove_event_attendee :: "database \<Rightarrow> nat \<Rightarrow> string \<Rightarrow> database" where
  "remove_event_attendee db eid uid =
     db\<lparr>event_attendees :=
          filter (\<lambda>a. \<not> (ea_event_id a = eid \<and> ea_user_id a = uid)) (event_attendees db)\<rparr>"

text \<open>
  \<open>get_event_attendees\<close>: the rows of the event, each joined with the Users rows of
  its user (\<open>JOIN Users u ON ea.user_id = u.user_id\<close>), so an attendee with no Users
  row is not listed. The query has no \<open>ORDER BY\<close>: the order of its rows is the
  engine's choice, which depends on the schema and its indexes. It is the parameter
  \<open>plan\<close>, applied to the rows of the join as a scan of EventAttendees meets them.
\<close>

definition get_event_attendees ::
    "(attendee_row list \<Rightarrow> attendee_row list) \<Rightarrow> database \<Rightarrow> nat \<Rightarrow> attendee_row list" where
  "get_event_attendees plan db eid =
     plan (concat (map (\<lambda>a. map (\<lambda>u. a) (filter (\<lambda>u. u = ea_user_id a) (users db)))
                       (filter (\<lambda>a. ea_event_id a = eid) (event_attendees db))))"

subsection \<open>What the schema keeps unique\<close>

text \<open>
  The key \<open>(group_id, user_id)\<close> of GroupMembers and the key \<open>(event_id, user_id)\<close>
  of EventAttendees are unique. A statement that counts rows takes this as a
  hypothesis on the database it starts from.
\<close>

definition member_keys_distinct :: "database \<Rightarrow> bool" where
  "member_keys_distinct db = distinct (map (\<lambda>m. (gm_group_id m, gm_user_id m)) (group_members db))"

definition attendee_keys_distinct :: "database \<Rightarrow> bool" where
  "attendee_keys_distinct db
     = distinct (map (\<lambda>a. (ea_event_id a, ea_user_id a)) (event_attendees db))"

text \<open>The rows of a table that are not the same in another state of it.\<close>

definition changed_rows :: "'a list \<Rightarrow> 'a list \<Rightarrow> ('a \<times> 'a) list" where
  "changed_rows old new = filter (\<lambda>(a, b). a \<noteq> b) (zip old new)"

section \<open>The command handlers\<close>

text \<open>
  What a handler is given: the author and the channel of the message, its text, the
  wall-clock time the handler reads (\<open>datetime.now()\<close>), the administrators of the
  configuration, what the chat platform answers when asked for a thread or for a
  channel (\<open>None\<close>: the request failed), and the order in which the database engine
  hands over the rows of a query without \<open>ORDER BY\<close>.
\<close>

record cmd_context =
  author_id :: string
  ctx_channel_id :: string
  channel_is_thread :: bool
  content :: string
  now :: datetime
  admin_user_ids :: "string list"
  platform_thread :: "string option"
  platform_channel :: "string option"
  query_order :: "attendee_row list \<Rightarrow> attendee_row list"

text \<open>
  A handler ends by sending a message and returning. The failures are the messages
  that refuse the command, named as the specification names them; \<open>Raised\<close> is an
  exception that leaves the handler.
\<close>

datatype failure =
    NotInGroupChannel | NotInEventThread | PermissionDenied | Forbidden | NotFound
  | MissingField | InvalidDateTime | InvalidNumber | NotApproved | NotGroupMember
  | NotMember | AlreadyMember | NotOpen | LastLeader | DuplicateName | NoSettings
  | RepositoryFailure | PlatformFailure

datatype outcome = Ok | Failed failure | Raised py_exception

definition get_group_from_channel :: "cmd_context \<Rightarrow> database \<Rightarrow> group_row option" where
  "get_group_from_channel ctx db = find (\<lambda>g. channel_id g = ctx_channel_id ctx) (groups db)"

definition get_event_from_thread :: "cmd_context \<Rightarrow> database \<Rightarrow> event_row option" where
  "get_event_from_thread ctx db =
     (if \<not> channel_is_thread ctx then None
      else find (\<lambda>e. thread_id e = Some (ctx_channel_id ctx)) (events db))"

text \<open>\<open>args.get(k)\<close> where the code tests its truth: a missing key and an empty
  string are both false.\<close>

definition get_truthy :: "dict \<Rightarrow> string \<Rightarrow> string option" where
  "get_truthy d k = (case dict_get d k of Some v \<Rightarrow> if v = [] then None else Some v | None \<Rightarrow> None)"

definition get_default :: "dict \<Rightarrow> string \<Rightarrow> string \<Rightarrow> string" where
  "get_default d k dflt = (case dict_get d k of Some v \<Rightarrow> v | None \<Rightarrow> dflt)"

subsection \<open>Events\<close>

text \<open>
  \<open>int(args["max"]) if args.get("max") else None\<close>: the outer \<open>None\<close> is the
  \<open>ValueError\<close> of \<open>int\<close>. In \<open>event_create\<close> an exception of \<open>create_event\<close> or
  \<open>update_event\<close> leaves the handler: no \<open>try\<close> is around them.
\<close>

definition create_max_attendees :: "dict \<Rightarrow> int option option" where
  "create_max_attendees args =
     (case get_truthy args ''max'' of
        None \<Rightarrow> Some None
      | Some m \<Rightarrow> (case py_int m of None \<Rightarrow> None | Some n \<Rightarrow> Some (Some n)))"

definition event_create :: "cmd_context \<Rightarrow> database \<Rightarrow> outcome \<times> database" where
  "event_create ctx db =
     (case get_group_from_channel ctx db of
        None \<Rightarrow> (Failed NotInGroupChannel, db)
      | Some grp \<Rightarrow>
          if \<not> new_members_can_create_events grp
             \<and> \<not> is_group_leader db (group_id grp) (author_id ctx)
          then (Failed Forbidden, db)
          else
            let args = parse_command_args (content ctx) in
            (case get_truthy args ''name'' of
               None \<Rightarrow> (Failed MissingField, db)
             | Some name \<Rightarrow>
             (case get_truthy args ''date'' of
                None \<Rightarrow> (Failed MissingField, db)
              | Some date_str \<Rightarrow>
              (case get_truthy args ''time'' of
                 None \<Rightarrow> (Failed MissingField, db)
               | Some time_str \<Rightarrow>
               (case strptime_datetime (date_str @ '' '' @ time_str) of
                  None \<Rightarrow> (Failed InvalidDateTime, db)
                | Some dt \<Rightarrow>
                    if dt_less dt (now ctx) then (Failed InvalidDateTime, db)
                    else
                      (case create_max_attendees args of
                         None \<Rightarrow> (Raised ValueError, db)
                       | Some max_att \<Rightarrow>
                           let event_data =
                                 \<lparr>event_id = 0, ev_group_id = group_id grp,
                                  host_id = author_id ctx, ev_name = name, date_time = dt,
                                  location_name = get_default args ''location'' [],
                                  location_address = get_default args ''address'' [],
                                  ev_description = get_default args ''description'' [],
                                  max_attendees = max_att,
                                  is_public = (lower (get_default args ''public'' ''true'') = ''true''),
                                  status = (if event_approval_mode grp \<noteq> ''none''
                                            then ''pending'' else ''approved''),
                                  thread_id = None\<rparr>
                           in (case create_event db event_data of
                                 Inl e \<Rightarrow> (Raised e, db)
                               | Inr (eid, db1) \<Rightarrow>
                                   (case platform_thread ctx of
                                      None \<Rightarrow> (Failed PlatformFailure, db1)
                                    | Some tid \<Rightarrow>
                                        (case update_event db1 eid
                                                (no_patch\<lparr>p_thread_id := Some tid\<rparr>) of
                                           Inl e \<Rightarrow> (Raised e, db1)
                                         | Inr (_, db2) \<Rightarrow>
                                             (Ok, add_event_attendee db2 eid (author_id ctx)
                                                    ''ATTENDING''))))))))))"

text \<open>
  \<open>str(ctx.author.id) != event["host_id"] and not self.db.is_group_leader(
  group["group_id"], ...)\<close>: the group is looked at only when the author is not the
  host, and a missing group row makes \<open>group["group_id"]\<close> raise \<open>TypeError\<close>.
  \<open>None\<close>: the author may go on.
\<close>

definition host_or_leader :: "cmd_context \<Rightarrow> database \<Rightarrow> event_row \<Rightarrow> outcome option" where
  "host_or_leader ctx db event =
     (if author_id ctx \<noteq> host_id event then
        (case get_group db (ev_group_id event) of
           None \<Rightarrow> Some (Raised TypeError)
         | Some grp \<Rightarrow>
             if \<not> is_group_leader db (group_id grp) (author_id ctx)
             then Some (Failed Forbidden) else None)
      else None)"

definition replace_date :: "datetime \<Rightarrow> datetime \<Rightarrow> datetime" where
  "replace_date cur new =
     cur\<lparr>dt_year := dt_year new, dt_month := dt_month new, dt_day := dt_day new\<rparr>"

definition replace_time :: "datetime \<Rightarrow> datetime \<Rightarrow> datetime" where
  "replace_time cur new = cur\<lparr>dt_hour := dt_hour new, dt_minute := dt_minute new\<rparr>"

text \<open>
  The date and time block of \<open>event_modify\<close>. \<open>merge_date_time\<close> is what
  \<open>current_date\<close> holds before the comparison with the clock: the stored date-time
  with the given date put in, then the given time (\<open>None\<close>: \<open>strptime\<close> raised
  \<open>ValueError\<close>, which the block catches). In \<open>modify_date_time\<close>, \<open>Inl\<close> is the
  message the handler returns with and \<open>Inr None\<close> is "neither key given".
\<close>

definition merge_date_time :: "dict \<Rightarrow> datetime \<Rightarrow> datetime option" where
  "merge_date_time args current =
     (case (case dict_get args ''date'' of
              None \<Rightarrow> Some current
            | Some date_str \<Rightarrow> map_option (replace_date current) (strptime_date date_str)) of
        None \<Rightarrow> None
      | Some c1 \<Rightarrow>
          (case dict_get args ''time'' of
             None \<Rightarrow> Some c1
           | Some time_str \<Rightarrow> map_option (replace_time c1) (strptime_time time_str)))"

definition modify_date_time :: "dict \<Rightarrow> datetime \<Rightarrow> datetime \<Rightarrow> failure + datetime option" where
  "modify_date_time args current now_t =
     (if dict_has args ''date'' \<or> dict_has args ''time'' then
        (case merge_date_time args current of
           None \<Rightarrow> Inl InvalidDateTime
         | Some merged \<Rightarrow>
             if dt_less merged now_t then Inl InvalidDateTime else Inr (Some merged))
      else Inr None)"

text \<open>
  \<open>int(args["max"])\<close> of \<open>event_modify\<close>, inside its \<open>try\<close>. The call of
  \<open>update_event\<close> at the end of \<open>event_modify\<close> is outside every \<open>try\<close>.
\<close>

definition modify_max_attendees :: "dict \<Rightarrow> failure + int option" where
  "modify_max_attendees args =
     (case dict_get args ''max'' of
        None \<Rightarrow> Inr None
      | Some m \<Rightarrow> (case py_int m of None \<Rightarrow> Inl InvalidNumber | Some n \<Rightarrow> Inr (Some n)))"

definition event_modify :: "cmd_context \<Rightarrow> database \<Rightarrow> outcome \<times> database" where
  "event_modify ctx db =
     (case get_event_from_thread ctx db of
        None \<Rightarrow> (Failed NotInEventThread, db)
      | Some event \<Rightarrow>
          (case host_or_leader ctx db event of
             Some refusal \<Rightarrow> (refusal, db)
           | None \<Rightarrow>
               let args = parse_command_args (content ctx) in
               if args = [] then (Failed NoSettings, db)
               else
                 (case modify_max_attendees args of
                    Inl f \<Rightarrow> (Failed f, db)
                  | Inr max_att \<Rightarrow>
                      (case modify_date_time args (date_time event) (now ctx) of
                         Inl f \<Rightarrow> (Failed f, db)
                       | Inr dt \<Rightarrow>
                           let update_data =
                                 no_patch\<lparr>p_name := dict_get args ''name'',
                                          p_description := dict_get args ''description'',
                                          p_location_name := dict_get args ''location'',
                                          p_location_address := dict_get args ''address'',
                                          p_max_attendees := max_att,
                                          p_date_time := dt\<rparr>
                           in if update_data = no_patch then (Failed NoSettings, db)
                              else (case update_event db (event_id event) update_data of
                                      Inl e \<Rightarrow> (Raised e, db)
                                    | Inr (True, db1) \<Rightarrow> (Ok, db1)
                                    | Inr (False, db1) \<Rightarrow> (Failed RepositoryFailure, db1))))))"

text \<open>
  \<open>event["max_attendees"] and len(attending) >= event["max_attendees"]\<close>: a missing
  cap and a cap of zero are both false.
\<close>

definition event_is_full :: "event_row \<Rightarrow> attendee_row list \<Rightarrow> bool" where
  "event_is_full event attending =
     (case max_attendees event of
        None \<Rightarrow> False
      | Some cap \<Rightarrow> cap \<noteq> 0 \<and> cap \<le> int (length attending))"

definition event_confirm :: "cmd_context \<Rightarrow> database \<Rightarrow> outcome \<times> database" where
  "event_confirm ctx db =
     (case get_event_from_thread ctx db of
        None \<Rightarrow> (Failed NotInEventThread, db)
      | Some event \<Rightarrow>
          if status event \<noteq> ''approved'' then (Failed NotApproved, db)
          else
            (case get_group db (ev_group_id event) of
               None \<Rightarrow> (Raised TypeError, db)
             | Some grp \<Rightarrow>
                 if \<not> is_group_member db (group_id grp) (author_id ctx)
                 then (Failed NotGroupMember, db)
                 else
                   let attendees = get_event_attendees (query_order ctx) db (event_id event);
                       attending = filter (\<lambda>a. rsvp_status a = ''ATTENDING'') attendees
                   in if event_is_full event attending
                      then (Ok, add_event_attendee db (event_id event) (author_id ctx) ''WAITLIST'')
                      else (Ok, add_event_attendee db (event_id event) (author_id ctx) ''ATTENDING'')))"

definition event_unconfirm :: "cmd_context \<Rightarrow> database \<Rightarrow> outcome \<times> database" where
  "event_unconfirm ctx db =
     (case get_event_from_thread ctx db of
        None \<Rightarrow> (Failed NotInEventThread, db)
      | Some event \<Rightarrow>
          let db1 = remove_event_attendee db (event_id event) (author_id ctx);
              attendees = get_event_attendees (query_order ctx) db1 (event_id event);
              waitlist = filter (\<lambda>a. rsvp_status a = ''WAITLIST'') attendees
          in (case waitlist of
                [] \<Rightarrow> (Ok, db1)
              | w # _ \<Rightarrow> (Ok, add_event_attendee db1 (event_id event) (ea_user_id w) ''ATTENDING'')))"

definition event_waitlist :: "cmd_context \<Rightarrow> database \<Rightarrow> outcome \<times> database" where
  "event_waitlist ctx db =
     (case get_event_from_thread ctx db of
        None \<Rightarrow> (Failed NotInEventThread, db)
      | Some event \<Rightarrow>
          if status event \<noteq> ''approved'' then (Failed NotApproved, db)
          else
            (case get_group db (ev_group_id event) of
               None \<Rightarrow> (Raised TypeError, db)
             | Some grp \<Rightarrow>
                 if \<not> is_group_member db (group_id grp) (author_id ctx)
                 then (Failed NotGroupMember, db)
                 else (Ok, add_event_attendee db (event_id event) (author_id ctx) ''WAITLIST'')))"

definition event_change_host :: "cmd_context \<Rightarrow> database \<Rightarrow> outcome \<times> database" where
  "event_change_host ctx db =
     (case get_event_from_thread ctx db of
        None \<Rightarrow> (Failed NotInEventThread, db)
      | Some event \<Rightarrow>
          (case host_or_leader ctx db event of
             Some refusal \<Rightarrow> (refusal, db)
           | None \<Rightarrow>
               let args = parse_command_args (content ctx) in
               (case get_truthy args ''user'' of
                  None \<Rightarrow> (Failed MissingField, db)
                | Some user \<Rightarrow>
                    (case first_digits user of
                       None \<Rightarrow> (Raised IndexError, db)
                     | Some user_id \<Rightarrow>
                         (case get_group db (ev_group_id event) of
                            None \<Rightarrow> (Raised TypeError, db)
                          | Some grp \<Rightarrow>
                              if \<not> is_group_member db (group_id grp) user_id
                              then (Failed NotGroupMember, db)
                              else (case update_event db (event_id event)
                                           (no_patch\<lparr>p_host_id := Some user_id\<rparr>) of
                                      Inl e \<Rightarrow> (Raised e, db)
                                    | Inr (True, db1) \<Rightarrow> (Ok, db1)
                                    | Inr (False, db1) \<Rightarrow> (Failed RepositoryFailure, db1)))))))"

subsection \<open>Groups\<close>

text \<open>
  \<open>group_create\<close>: the \<open>try\<close> around the channel and the rows catches the platform's
  \<open>HTTPException\<close> only, so the \<open>ValueError\<close> of \<open>int\<close> and the \<open>OverflowError\<close> of
  \<open>create_group\<close> leave the handler (with the channel already made). The platform calls
  that follow the rows (the welcome message, the pin, the permissions) are taken to
  succeed. The creator becomes a member and a leader; no Users row is made for the
  creator (\<open>group_join\<close> makes one for whoever joins).
\<close>

definition create_required :: "dict \<Rightarrow> int option option" where
  "create_required args =
     (case get_truthy args ''contributor_events_required'' of
        None \<Rightarrow> Some None
      | Some r \<Rightarrow> (case py_int r of None \<Rightarrow> None | Some n \<Rightarrow> Some (Some n)))"

definition group_create :: "cmd_context \<Rightarrow> database \<Rightarrow> outcome \<times> database" where
  "group_create ctx db =
     (if author_id ctx \<notin> set (admin_user_ids ctx) then (Failed PermissionDenied, db)
      else
        let args = parse_command_args (content ctx) in
        (case get_truthy args ''name'' of
           None \<Rightarrow> (Failed MissingField, db)
         | Some name \<Rightarrow>
             if get_group_by_name db name \<noteq> None then (Failed DuplicateName, db)
             else
               (case platform_channel ctx of
                  None \<Rightarrow> (Failed PlatformFailure, db)
                | Some cid \<Rightarrow>
                    (case create_required args of
                       None \<Rightarrow> (Raised ValueError, db)
                     | Some required \<Rightarrow>
                         let group_data =
                               \<lparr>group_id = 0, group_name = name,
                                group_description = get_default args ''description'' [],
                                is_open = (lower (get_default args ''is_open'' ''true'') = ''true''),
                                channel_id = cid,
                                new_members_can_create_events =
                                  (lower (get_default args ''new_members_can_create_events'' ''true'')
                                     = ''true''),
                                event_approval_mode = get_default args ''event_approval_mode'' ''public'',
                                event_attendee_management_mode =
                                  get_default args ''event_attendee_management_mode'' ''host'',
                                contributor_events_required = required\<rparr>
                         in (case create_group db group_data of
                               Inl e \<Rightarrow> (Raised e, db)
                             | Inr (gid, db1) \<Rightarrow>
                                 (Ok, add_group_member db1 gid (author_id ctx) True))))))"

definition group_join :: "cmd_context \<Rightarrow> database \<Rightarrow> outcome \<times> database" where
  "group_join ctx db =
     (let args = parse_command_args (content ctx) in
      (case get_truthy args ''name'' of
         None \<Rightarrow> (Failed MissingField, db)
       | Some name \<Rightarrow>
           (case get_group_by_name db name of
              None \<Rightarrow> (Failed NotFound, db)
            | Some grp \<Rightarrow>
                if \<not> is_open grp then (Failed NotOpen, db)
                else if is_group_member db (group_id grp) (author_id ctx)
                then (Failed AlreadyMember, db)
                else (Ok, create_user (add_group_member db (group_id grp) (author_id ctx) False)
                                      (author_id ctx)))))"

definition group_leave :: "cmd_context \<Rightarrow> database \<Rightarrow> outcome \<times> database" where
  "group_leave ctx db =
     (case get_group_from_channel ctx db of
        None \<Rightarrow> (Failed NotInGroupChannel, db)
      | Some grp \<Rightarrow>
          if \<not> is_group_member db (group_id grp) (author_id ctx) then (Failed NotMember, db)
          else if is_group_leader db (group_id grp) (author_id ctx)
                  \<and> length (group_leaders db (group_id grp)) = 1
          then (Failed LastLeader, db)
          else (Ok, remove_group_member db (group_id grp) (author_id ctx)))"

section \<open>Concrete data for the evaluations\<close>

text \<open>
  A group with one leader (user 7) and two members (8 and 9), and one approved event
  of the group with room for two, hosted by 7, whose thread is channel 200. The group's
  own channel is 100.
\<close>

definition demo_time :: datetime where
  "demo_time = \<lparr>dt_year = 2030, dt_month = 1, dt_day = 1, dt_hour = 12, dt_minute = 0,
                 dt_second = 0, dt_microsecond = 0\<rparr>"

definition demo_group :: group_row where
  "demo_group = \<lparr>group_id = 1, group_name = ''Hikers'', group_description = [],
                  is_open = True, channel_id = ''100'', new_members_can_create_events = True,
                  event_approval_mode = ''none'', event_attendee_management_mode = ''host'',
                  contributor_events_required = None\<rparr>"

definition demo_event :: event_row where
  "demo_event = \<lparr>event_id = 1, ev_group_id = 1, host_id = ''7'', ev_name = ''Hike'',
                  date_time = demo_time\<lparr>dt_year := 2031\<rparr>, location_name = [],
                  location_address = [], ev_description = [], max_attendees = Some 2,
                  is_public = True, status = ''approved'', thread_id = Some ''200''\<rparr>"

definition demo_db :: database where
  "demo_db = \<lparr>users = [''7'', ''8'', ''9''], groups = [demo_group],
               group_members = [\<lparr>gm_group_id = 1, gm_user_id = ''7'', is_leader = True\<rparr>,
                                \<lparr>gm_group_id = 1, gm_user_id = ''8'', is_leader = False\<rparr>,
                                \<lparr>gm_group_id = 1, gm_user_id = ''9'', is_leader = False\<rparr>],
               events = [demo_event],
               event_attendees = [\<lparr>ea_event_id = 1, ea_user_id = ''7'',
                                   rsvp_status = ''ATTENDING''\<rparr>]\<rparr>"

text \<open>
  A message of the given author with the given text, in the event's thread and in
  the group's channel. The clock reads 2030-01-01 12:00, user 7 is the administrator,
  the platform would open thread 201 and channel 101, and the engine hands over the
  rows of a query in the order of its scan.
\<close>

definition in_thread :: "string \<Rightarrow> string \<Rightarrow> cmd_context" where
  "in_thread author text =
     \<lparr>author_id = author, ctx_channel_id = ''200'', channel_is_thread = True, content = text,
      now = demo_time, admin_user_ids = [''7''], platform_thread = Some ''201'',
      platform_channel = Some ''101'', query_order = (\<lambda>rows. rows)\<rparr>"

definition in_channel :: "string \<Rightarrow> string \<Rightarrow> cmd_context" where
  "in_channel author text =
     \<lparr>author_id = author, ctx_channel_id = ''100'', channel_is_thread = False, content = text,
      now = demo_time, admin_user_ids = [''7''], platform_thread = Some ''201'',
      platform_channel = Some ''101'', query_order = (\<lambda>rows. rows)\<rparr>"

text \<open>
  Variants of the data: a full event with users 9 and 8 on the waiting list, 9 first
  in the table; a pending event with room for one, user 7 attending and user 8
  waiting; the group with two leaders.
\<close>

definition demo_waitlist_db :: database where
  "demo_waitlist_db =
     demo_db\<lparr>events := [demo_event\<lparr>max_attendees := Some 1\<rparr>],
             event_attendees :=
                [\<lparr>ea_event_id = 1, ea_user_id = ''7'', rsvp_status = ''ATTENDING''\<rparr>,
                 \<lparr>ea_event_id = 1, ea_user_id = ''9'', rsvp_status = ''WAITLIST''\<rparr>,
                 \<lparr>ea_event_id = 1, ea_user_id = ''8'', rsvp_status = ''WAITLIST''\<rparr>]\<rparr>"

definition demo_pending_db :: database where
  "demo_pending_db =
     demo_db\<lparr>events := [demo_event\<lparr>status := ''pending'', max_attendees := Some 1\<rparr>],
             event_attendees :=
                [\<lparr>ea_event_id = 1, ea_user_id = ''7'', rsvp_status = ''ATTENDING''\<rparr>,
                 \<lparr>ea_event_id = 1, ea_user_id = ''8'', rsvp_status = ''WAITLIST''\<rparr>]\<rparr>"

definition demo_two_leaders_db :: database where
  "demo_two_leaders_db =
     demo_db\<lparr>group_members :=
                [\<lparr>gm_group_id = 1, gm_user_id = ''7'', is_leader = True\<rparr>,
                 \<lparr>gm_group_id = 1, gm_user_id = ''8'', is_leader = True\<rparr>,
                 \<lparr>gm_group_id = 1, gm_user_id = ''9'', is_leader = False\<rparr>]\<rparr>"

text \<open>The event with a capacity of zero.\<close>

definition demo_zero_cap_db :: database where
  "demo_zero_cap_db = demo_db\<lparr>events := [demo_event\<lparr>max_attendees := Some 0\<rparr>]\<rparr>"

text \<open>
  A run that starts with nothing: the empty database, and a message in a channel
  that belongs to no group, where the platform would open channel 100 and thread 200.
  The states the run goes through are: the group Hikers founded by the administrator 7;
  user 8 joined; an event with room for one created by 8; and 7 on its waiting list.
\<close>

definition empty_db :: database where
  "empty_db = \<lparr>users = [], groups = [], group_members = [], events = [],
                event_attendees = []\<rparr>"

definition in_lobby :: "string \<Rightarrow> string \<Rightarrow> cmd_context" where
  "in_lobby author text =
     \<lparr>author_id = author, ctx_channel_id = ''1'', channel_is_thread = False, content = text,
      now = demo_time, admin_user_ids = [''7''], platform_thread = Some ''200'',
      platform_channel = Some ''100'', query_order = (\<lambda>rows. rows)\<rparr>"

definition founded_db :: database where
  "founded_db =
     empty_db\<lparr>groups := [demo_group],
              group_members := [\<lparr>gm_group_id = 1, gm_user_id = ''7'', is_leader = True\<rparr>]\<rparr>"

definition joined_db :: database where
  "joined_db =
     founded_db\<lparr>users := [''8''],
                group_members := [\<lparr>gm_group_id = 1, gm_user_id = ''7'', is_leader = True\<rparr>,
                                  \<lparr>gm_group_id = 1, gm_user_id = ''8'', is_leader = False\<rparr>]\<rparr>"

definition hike_db :: database where
  "hike_db =
     joined_db\<lparr>events := [demo_event\<lparr>host_id := ''8'', max_attendees := Some 1\<rparr>],
               event_attendees :=
                 [\<lparr>ea_event_id = 1, ea_user_id = ''8'', rsvp_status = ''ATTENDING''\<rparr>]\<rparr>"

definition hike_full_db :: database where
  "hike_full_db =
     hike_db\<lparr>event_attendees :=
                [\<lparr>ea_event_id = 1, ea_user_id = ''8'', rsvp_status = ''ATTENDING''\<rparr>,
                 \<lparr>ea_event_id = 1, ea_user_id = ''7'', rsvp_status = ''WAITLIST''\<rparr>]\<rparr>"

section \<open>Changing the host\<close>

lemma apply_patch_host:
  "apply_patch (no_patch\<lparr>p_host_id := Some u\<rparr>) e = e\<lparr>host_id := u\<rparr>"
  by (simp add: apply_patch_def no_patch_def set_opt_def)

lemma map_host_update:
  "map (\<lambda>e. e\<lparr>host_id := h\<rparr>) (map (\<lambda>e. if event_id e = eid then e\<lparr>host_id := u\<rparr> else e) es)
     = map (\<lambda>e. e\<lparr>host_id := h\<rparr>) es"
  by (induction es) simp_all

lemma update_event_host:
  "update_event db eid (no_patch\<lparr>p_host_id := Some u\<rparr>)
     = Inr (True, db\<lparr>events := map (\<lambda>e. if event_id e = eid then e\<lparr>host_id := u\<rparr> else e)
                                      (events db)\<rparr>)"
proof -
  have "no_patch\<lparr>p_host_id := Some u\<rparr> \<noteq> no_patch"
    by (simp add: no_patch_def)
  moreover have "bindable (p_max_attendees (no_patch\<lparr>p_host_id := Some u\<rparr>))"
    by (simp add: no_patch_def bindable_def)
  ultimately show ?thesis
    by (simp add: update_event_def apply_patch_host cong: if_cong)
qed

lemma change_host_db:
  "snd (event_change_host ctx db) = db \<or>
   (\<exists>eid u. snd (event_change_host ctx db)
      = db\<lparr>events := map (\<lambda>e. if event_id e = eid then e\<lparr>host_id := u\<rparr> else e) (events db)\<rparr>)"
  by (auto simp: event_change_host_def update_event_host Let_def
           split: option.splits if_splits)

text \<open>
  C9. Whatever the message and the database, and however the command ends,
  \<open>event_change_host\<close> leaves the EventAttendees table and the Users table as they
  were, so the attendee list of every event, in whatever order the engine hands it
  over, is the same before and after (no record is made, deleted or given another
  status); groups and memberships are untouched too, and the events differ from the old
  ones in the \<open>host_id\<close> column at most.
\<close>

theorem change_host_frame:
  "event_attendees (snd (event_change_host ctx db)) = event_attendees db
   \<and> users (snd (event_change_host ctx db)) = users db
   \<and> get_event_attendees plan (snd (event_change_host ctx db)) eid
       = get_event_attendees plan db eid
   \<and> groups (snd (event_change_host ctx db)) = groups db
   \<and> group_members (snd (event_change_host ctx db)) = group_members db
   \<and> map (\<lambda>e. e\<lparr>host_id := []\<rparr>) (events (snd (event_change_host ctx db)))
       = map (\<lambda>e. e\<lparr>host_id := []\<rparr>) (events db)"
  using change_host_db [of ctx db]
  by (auto simp: get_event_attendees_def map_host_update)

text \<open>
  The host 7 hands the event to member 9, who has no attendance record: the command
  succeeds, 9 is the host, and the attendee list is still the one record of 7.
\<close>

theorem change_host_frame_witness:
  "fst (event_change_host (in_thread ''7'' ''event change host user=<@9>'') demo_db) = Ok
   \<and> map host_id (events (snd (event_change_host
          (in_thread ''7'' ''event change host user=<@9>'') demo_db))) = [''9'']
   \<and> get_event_attendees (\<lambda>rows. rows) (snd (event_change_host
          (in_thread ''7'' ''event change host user=<@9>'') demo_db)) 1
       = [\<lparr>ea_event_id = 1, ea_user_id = ''7'', rsvp_status = ''ATTENDING''\<rparr>]"
proof -
  have run: "event_change_host (in_thread ''7'' ''event change host user=<@9>'') demo_db
             = (Ok, demo_db\<lparr>events := [demo_event\<lparr>host_id := ''9''\<rparr>]\<rparr>)"
    by code_simp
  have before: "get_event_attendees (\<lambda>rows. rows) demo_db 1
                = [\<lparr>ea_event_id = 1, ea_user_id = ''7'', rsvp_status = ''ATTENDING''\<rparr>]"
    by code_simp
  have frame: "get_event_attendees (\<lambda>rows. rows) (snd (event_change_host
                  (in_thread ''7'' ''event change host user=<@9>'') demo_db)) 1
               = get_event_attendees (\<lambda>rows. rows) demo_db 1"
    using change_host_frame [where ctx = "in_thread ''7'' ''event change host user=<@9>''"
                               and db = demo_db and plan = "\<lambda>rows. rows" and eid = 1]
    by blast
  have "fst (event_change_host (in_thread ''7'' ''event change host user=<@9>'') demo_db) = Ok"
    and "map host_id (events (snd (event_change_host
           (in_thread ''7'' ''event change host user=<@9>'') demo_db))) = [''9'']"
    by (simp_all add: run)
  then show ?thesis
    by (simp only: frame before simp_thms)
qed

section \<open>Leaving a group\<close>

lemma is_group_member_iff:
  "is_group_member db gid uid
     = (\<exists>m\<in>set (group_members db). gm_group_id m = gid \<and> gm_user_id m = uid)"
  unfolding is_group_member_def find_None_iff by auto

lemma is_group_leader_iff:
  "is_group_leader db gid uid
     = (\<exists>m\<in>set (group_members db). gm_group_id m = gid \<and> gm_user_id m = uid \<and> is_leader m)"
  unfolding is_group_leader_def find_None_iff by auto

lemma leaders_after_removal:
  "distinct (map (\<lambda>m. (gm_group_id m, gm_user_id m)) ms) \<Longrightarrow>
   m \<in> set ms \<Longrightarrow> gm_group_id m = gid \<Longrightarrow> gm_user_id m = uid \<Longrightarrow> is_leader m \<Longrightarrow>
   Suc (length (filter (\<lambda>m. gm_group_id m = gid \<and> is_leader m)
                  (filter (\<lambda>m. \<not> (gm_group_id m = gid \<and> gm_user_id m = uid)) ms)))
     = length (filter (\<lambda>m. gm_group_id m = gid \<and> is_leader m) ms)"
proof (induction ms)
  case Nil
  then show ?case by simp
next
  case (Cons x xs)
  show ?case
  proof (cases "x = m")
    case True
    have "(gm_group_id x, gm_user_id x) \<notin> (\<lambda>m. (gm_group_id m, gm_user_id m)) ` set xs"
      using Cons.prems(1) by simp
    then have "\<And>y. y \<in> set xs \<Longrightarrow> \<not> (gm_group_id y = gid \<and> gm_user_id y = uid)"
      using Cons.prems(3,4) True by (auto simp: image_iff)
    then have "filter (\<lambda>m. \<not> (gm_group_id m = gid \<and> gm_user_id m = uid)) xs = xs"
      by (simp add: filter_id_conv)
    with True Cons.prems show ?thesis by simp
  next
    case False
    with Cons show ?thesis by auto
  qed
qed

text \<open>
  C7. In a group's channel: when the group has exactly one leader and the author is
  that leader, \<open>group_leave\<close> refuses with \<open>LastLeader\<close> and the database is
  unchanged. When the author is a leader and the number of leaders is not one (two,
  say), with the membership key unique, the command succeeds, the author is no longer
  a member, and the group has exactly one leader fewer.
\<close>

theorem leave_keeps_a_leader:
  assumes "get_group_from_channel ctx db = Some grp"
  shows "(\<forall>m. group_leaders db (group_id grp) = [m] \<and> gm_user_id m = author_id ctx
            \<longrightarrow> group_leave ctx db = (Failed LastLeader, db))
       \<and> (member_keys_distinct db \<and> is_group_leader db (group_id grp) (author_id ctx)
            \<and> length (group_leaders db (group_id grp)) \<noteq> 1
            \<longrightarrow> fst (group_leave ctx db) = Ok
              \<and> Suc (length (group_leaders (snd (group_leave ctx db)) (group_id grp)))
                  = length (group_leaders db (group_id grp))
              \<and> \<not> is_group_member (snd (group_leave ctx db)) (group_id grp) (author_id ctx))"
proof (intro conjI allI impI)
  fix m
  assume a: "group_leaders db (group_id grp) = [m] \<and> gm_user_id m = author_id ctx"
  then have "m \<in> set (group_leaders db (group_id grp))" by simp
  then have m: "m \<in> set (group_members db)" "gm_group_id m = group_id grp" "is_leader m"
    by (auto simp: group_leaders_def)
  with a have "is_group_member db (group_id grp) (author_id ctx)"
    and "is_group_leader db (group_id grp) (author_id ctx)"
    by (auto simp: is_group_member_iff is_group_leader_iff)
  with a assms show "group_leave ctx db = (Failed LastLeader, db)"
    by (simp add: group_leave_def)
next
  assume b: "member_keys_distinct db \<and> is_group_leader db (group_id grp) (author_id ctx)
            \<and> length (group_leaders db (group_id grp)) \<noteq> 1"
  then obtain m where m: "m \<in> set (group_members db)" "gm_group_id m = group_id grp"
      "gm_user_id m = author_id ctx" "is_leader m"
    by (auto simp: is_group_leader_iff)
  then have mem: "is_group_member db (group_id grp) (author_id ctx)"
    by (auto simp: is_group_member_iff)
  with b assms have run: "group_leave ctx db
      = (Ok, remove_group_member db (group_id grp) (author_id ctx))"
    by (simp add: group_leave_def)
  show "fst (group_leave ctx db) = Ok" by (simp add: run)
  show "Suc (length (group_leaders (snd (group_leave ctx db)) (group_id grp)))
          = length (group_leaders db (group_id grp))"
    using leaders_after_removal [OF _ m] b
    by (simp add: run group_leaders_def remove_group_member_def member_keys_distinct_def)
  show "\<not> is_group_member (snd (group_leave ctx db)) (group_id grp) (author_id ctx)"
    by (auto simp: run is_group_member_iff remove_group_member_def)
qed

text \<open>
  The sole leader 7 of the demo group is refused; with 7 and 8 both leaders, 7 leaves
  and one leader remains.
\<close>

theorem leave_keeps_a_leader_witness:
  "get_group_from_channel (in_channel ''7'' ''circle leave'') demo_db = Some demo_group
   \<and> group_leaders demo_db 1 = [\<lparr>gm_group_id = 1, gm_user_id = ''7'', is_leader = True\<rparr>]
   \<and> group_leave (in_channel ''7'' ''circle leave'') demo_db = (Failed LastLeader, demo_db)
   \<and> get_group_from_channel (in_channel ''7'' ''circle leave'') demo_two_leaders_db
       = Some demo_group
   \<and> member_keys_distinct demo_two_leaders_db
   \<and> is_group_leader demo_two_leaders_db 1 ''7''
   \<and> length (group_leaders demo_two_leaders_db 1) = 2
   \<and> fst (group_leave (in_channel ''7'' ''circle leave'') demo_two_leaders_db) = Ok
   \<and> length (group_leaders
        (snd (group_leave (in_channel ''7'' ''circle leave'') demo_two_leaders_db)) 1) = 1"
proof -
  have gid: "group_id demo_group = 1" by (simp add: demo_group_def)
  have author: "author_id (in_channel ''7'' ''circle leave'') = ''7''"
    by (simp add: in_channel_def)
  have g1: "get_group_from_channel (in_channel ''7'' ''circle leave'') demo_db = Some demo_group"
    by code_simp
  have l1: "group_leaders demo_db 1 = [\<lparr>gm_group_id = 1, gm_user_id = ''7'', is_leader = True\<rparr>]"
    by code_simp
  have r1: "group_leave (in_channel ''7'' ''circle leave'') demo_db = (Failed LastLeader, demo_db)"
    using leave_keeps_a_leader [OF g1] l1 unfolding gid author by simp
  have g2: "get_group_from_channel (in_channel ''7'' ''circle leave'') demo_two_leaders_db
              = Some demo_group"
    by code_simp
  have d2: "member_keys_distinct demo_two_leaders_db" by code_simp
  have i2: "is_group_leader demo_two_leaders_db 1 ''7''" by code_simp
  have l2: "length (group_leaders demo_two_leaders_db 1) = 2" by code_simp
  have r2: "fst (group_leave (in_channel ''7'' ''circle leave'') demo_two_leaders_db) = Ok
     \<and> length (group_leaders
         (snd (group_leave (in_channel ''7'' ''circle leave'') demo_two_leaders_db)) 1) = 1"
    using leave_keeps_a_leader [OF g2] d2 i2 l2 unfolding gid author by simp
  from g1 l1 r1 g2 d2 i2 l2 r2 show ?thesis by blast
qed

section \<open>Withdrawing a confirmation\<close>

lemma in_listing:
  assumes "\<And>rows. set (plan rows) = set rows"
  shows "w \<in> set (get_event_attendees plan db eid)
     = (w \<in> set (event_attendees db) \<and> ea_event_id w = eid \<and> ea_user_id w \<in> set (users db))"
  by (auto simp: get_event_attendees_def assms)

lemma status_update_same:
  "(a\<lparr>rsvp_status := st\<rparr> = a) = (rsvp_status a = st)"
  "(a = a\<lparr>rsvp_status := st\<rparr>) = (rsvp_status a = st)"
  by (cases a; auto)+

lemma add_existing_attendee:
  assumes "w \<in> set (event_attendees db)" "ea_event_id w = eid"
  shows "add_event_attendee db eid (ea_user_id w) st
           = db\<lparr>event_attendees :=
                  map (\<lambda>a. if ea_event_id a = eid \<and> ea_user_id a = ea_user_id w
                            then a\<lparr>rsvp_status := st\<rparr> else a) (event_attendees db)\<rparr>"
proof -
  have "find (\<lambda>a. ea_event_id a = eid \<and> ea_user_id a = ea_user_id w) (event_attendees db) \<noteq> None"
    unfolding find_None_iff using assms by auto
  then show ?thesis by (simp add: add_event_attendee_def)
qed

lemma one_row_changed:
  assumes "distinct (map (\<lambda>a. (ea_event_id a, ea_user_id a)) xs)"
    and "w \<in> set xs" and "rsvp_status w \<noteq> st"
  shows "length (filter (\<lambda>a. a \<noteq> (if ea_event_id a = ea_event_id w \<and> ea_user_id a = ea_user_id w
                                       then a\<lparr>rsvp_status := st\<rparr> else a)) xs) = 1"
  using assms
proof (induction xs)
  case Nil
  then show ?case by simp
next
  case (Cons x xs)
  have notin: "(ea_event_id x, ea_user_id x) \<notin> (\<lambda>a. (ea_event_id a, ea_user_id a)) ` set xs"
    using Cons.prems(1) by simp
  show ?case
  proof (cases "x = w")
    case True
    have "\<And>y. y \<in> set xs \<Longrightarrow> \<not> (ea_event_id y = ea_event_id w \<and> ea_user_id y = ea_user_id w)"
      using notin True by (auto simp: image_iff)
    then have "filter (\<lambda>a. a \<noteq> (if ea_event_id a = ea_event_id w \<and> ea_user_id a = ea_user_id w
                                   then a\<lparr>rsvp_status := st\<rparr> else a)) xs = []"
      by (auto simp: filter_empty_conv)
    with True Cons.prems(3) show ?thesis
      by (simp add: status_update_same)
  next
    case False
    with Cons.prems have w: "w \<in> set xs" by simp
    then have "\<not> (ea_event_id x = ea_event_id w \<and> ea_user_id x = ea_user_id w)"
      using notin by (auto simp: image_iff)
    with Cons w show ?thesis by auto
  qed
qed

lemma changed_rows_map:
  "changed_rows xs (map f xs) = map (\<lambda>a. (a, f a)) (filter (\<lambda>a. a \<noteq> f a) xs)"
  unfolding changed_rows_def by (induction xs) auto

text \<open>
  What \<open>event_unconfirm\<close> does with the list it is handed, when the engine's order is
  a reordering of the rows of the join. In an event's thread it always ends without a
  failure, and afterwards the table holds no row of the author for the event (the row
  is deleted, not marked). With the attendee list read after the deletion: when it has
  no \<open>WAITLIST\<close> record, nothing else changes; when its \<open>WAITLIST\<close> records are
  \<open>w # ws\<close>, the rows of the first one's user for this event become \<open>ATTENDING\<close> and
  every other row stays as it is, and with the key unique exactly one row changes, which
  is \<open>w\<close>.
\<close>

lemma unconfirm_promotes_first_listed:
  assumes ev: "get_event_from_thread ctx db = Some event"
    and order: "\<And>rows. set (query_order ctx rows) = set rows"
  shows "fst (event_unconfirm ctx db) = Ok
     \<and> (\<forall>a \<in> set (event_attendees (snd (event_unconfirm ctx db))).
          \<not> (ea_event_id a = event_id event \<and> ea_user_id a = author_id ctx))
     \<and> (filter (\<lambda>a. rsvp_status a = ''WAITLIST'')
           (get_event_attendees (query_order ctx)
              (remove_event_attendee db (event_id event) (author_id ctx))
              (event_id event)) = []
          \<longrightarrow> snd (event_unconfirm ctx db)
                = remove_event_attendee db (event_id event) (author_id ctx))
     \<and> (\<forall>w ws. filter (\<lambda>a. rsvp_status a = ''WAITLIST'')
           (get_event_attendees (query_order ctx)
              (remove_event_attendee db (event_id event) (author_id ctx))
              (event_id event)) = w # ws
          \<longrightarrow> event_attendees (snd (event_unconfirm ctx db))
                = map (\<lambda>a. if ea_event_id a = event_id event \<and> ea_user_id a = ea_user_id w
                            then a\<lparr>rsvp_status := ''ATTENDING''\<rparr> else a)
                    (event_attendees (remove_event_attendee db (event_id event) (author_id ctx)))
              \<and> (attendee_keys_distinct db
                  \<longrightarrow> changed_rows
                        (event_attendees (remove_event_attendee db (event_id event) (author_id ctx)))
                        (event_attendees (snd (event_unconfirm ctx db)))
                      = [(w, w\<lparr>rsvp_status := ''ATTENDING''\<rparr>)]))"
proof -
  define eid where "eid = event_id event"
  define db1 where "db1 = remove_event_attendee db eid (author_id ctx)"
  define W where "W = filter (\<lambda>a. rsvp_status a = ''WAITLIST'')
                        (get_event_attendees (query_order ctx) db1 eid)"
  have run: "event_unconfirm ctx db
      = (case W of [] \<Rightarrow> (Ok, db1)
         | w # _ \<Rightarrow> (Ok, add_event_attendee db1 eid (ea_user_id w) ''ATTENDING''))"
    unfolding W_def db1_def eid_def by (simp add: event_unconfirm_def ev Let_def)
  have rows1: "event_attendees db1
      = filter (\<lambda>a. \<not> (ea_event_id a = eid \<and> ea_user_id a = author_id ctx)) (event_attendees db)"
    by (simp add: db1_def remove_event_attendee_def)
  have promoted: "event_attendees (snd (event_unconfirm ctx db))
        = map (\<lambda>a. if ea_event_id a = eid \<and> ea_user_id a = ea_user_id w
                    then a\<lparr>rsvp_status := ''ATTENDING''\<rparr> else a) (event_attendees db1)
      \<and> w \<in> set (event_attendees db1) \<and> ea_event_id w = eid \<and> rsvp_status w = ''WAITLIST''"
    if "W = w # ws" for w ws
  proof -
    have "w \<in> set W" using that by simp
    then have w: "w \<in> set (event_attendees db1)" "ea_event_id w = eid" "rsvp_status w = ''WAITLIST''"
      by (auto simp: W_def in_listing [of "query_order ctx", OF order])
    show ?thesis
      using w by (simp add: run that add_existing_attendee)
  qed
  have c1: "fst (event_unconfirm ctx db) = Ok"
    by (simp add: run split: list.splits)
  have c2: "\<forall>a \<in> set (event_attendees (snd (event_unconfirm ctx db))).
          \<not> (ea_event_id a = eid \<and> ea_user_id a = author_id ctx)"
  proof (cases W)
    case Nil
    then show ?thesis by (simp add: run rows1)
  next
    case (Cons w ws)
    from promoted [OF Cons] show ?thesis
      by (auto simp: rows1)
  qed
  have c3: "W = [] \<longrightarrow> snd (event_unconfirm ctx db) = db1"
    by (simp add: run)
  have c4: "event_attendees (snd (event_unconfirm ctx db))
                = map (\<lambda>a. if ea_event_id a = eid \<and> ea_user_id a = ea_user_id w
                            then a\<lparr>rsvp_status := ''ATTENDING''\<rparr> else a) (event_attendees db1)
            \<and> (attendee_keys_distinct db
                  \<longrightarrow> changed_rows (event_attendees db1)
                        (event_attendees (snd (event_unconfirm ctx db)))
                      = [(w, w\<lparr>rsvp_status := ''ATTENDING''\<rparr>)])"
    if "W = w # ws" for w ws
  proof (intro conjI impI)
    note p = promoted [OF that]
    show "event_attendees (snd (event_unconfirm ctx db))
                = map (\<lambda>a. if ea_event_id a = eid \<and> ea_user_id a = ea_user_id w
                            then a\<lparr>rsvp_status := ''ATTENDING''\<rparr> else a) (event_attendees db1)"
      using p by simp
    assume d: "attendee_keys_distinct db"
    have d1: "distinct (map (\<lambda>a. (ea_event_id a, ea_user_id a)) (event_attendees db1))"
      using d by (simp add: attendee_keys_distinct_def rows1 distinct_map_filter)
    let ?f = "\<lambda>a. if ea_event_id a = eid \<and> ea_user_id a = ea_user_id w
                   then a\<lparr>rsvp_status := ''ATTENDING''\<rparr> else a"
    have len: "length (filter (\<lambda>a. a \<noteq> ?f a) (event_attendees db1)) = 1"
      using one_row_changed [OF d1, of w "''ATTENDING''"] p by simp
    have sub: "set (filter (\<lambda>a. a \<noteq> ?f a) (event_attendees db1)) \<supseteq> {w}"
      using p by (auto simp: status_update_same)
    obtain x where x: "filter (\<lambda>a. a \<noteq> ?f a) (event_attendees db1) = [x]"
      using len by (auto simp: length_Suc_conv)
    with sub have "x = w" by auto
    with x show "changed_rows (event_attendees db1) (event_attendees (snd (event_unconfirm ctx db)))
                      = [(w, w\<lparr>rsvp_status := ''ATTENDING''\<rparr>)]"
      using p by (simp add: changed_rows_map)
  qed
  from c1 c2 c3 c4 show ?thesis
    unfolding W_def db1_def eid_def by blast
qed

text \<open>
  Which waiting attendee is promoted follows the engine. With 9 and 8 waiting, in
  this order in the table, and both with a Users row, the host 7 withdraws: an
  engine that hands the rows over as the table has them promotes 9, an engine that
  hands them over the other way round promotes 8.
\<close>

lemma unconfirm_follows_the_engine:
  "event_unconfirm (in_thread ''7'' ''event unconfirm'') demo_waitlist_db
     = (Ok, demo_waitlist_db\<lparr>event_attendees :=
              [\<lparr>ea_event_id = 1, ea_user_id = ''9'', rsvp_status = ''ATTENDING''\<rparr>,
               \<lparr>ea_event_id = 1, ea_user_id = ''8'', rsvp_status = ''WAITLIST''\<rparr>]\<rparr>)
   \<and> event_unconfirm ((in_thread ''7'' ''event unconfirm'')\<lparr>query_order := rev\<rparr>)
        demo_waitlist_db
     = (Ok, demo_waitlist_db\<lparr>event_attendees :=
              [\<lparr>ea_event_id = 1, ea_user_id = ''9'', rsvp_status = ''WAITLIST''\<rparr>,
               \<lparr>ea_event_id = 1, ea_user_id = ''8'', rsvp_status = ''ATTENDING''\<rparr>]\<rparr>)"
  by code_simp

text \<open>
  The command asks for nothing but an event thread: neither membership nor approval
  nor a record of the author is looked at, and an author with no row for the event
  leaves the table as it was. User 5, who is not a member and has no record,
  withdraws from the pending event with room for one: the waiting user 8 is promoted,
  and the \<open>ATTENDING\<close> records go from one to two.
\<close>

lemma remove_absent_attendee:
  "find (\<lambda>a. ea_event_id a = eid \<and> ea_user_id a = uid) (event_attendees db) = None
   \<Longrightarrow> remove_event_attendee db eid uid = db"
  unfolding find_None_iff remove_event_attendee_def
  by (simp add: filter_id_conv)

lemma unconfirm_in_a_thread_succeeds:
  "get_event_from_thread ctx db = Some event \<Longrightarrow> fst (event_unconfirm ctx db) = Ok"
  by (simp add: event_unconfirm_def Let_def split: list.splits)

lemma unconfirm_can_exceed_the_cap:
  "get_event_from_thread (in_thread ''5'' ''event unconfirm'') demo_pending_db
      = Some (demo_event\<lparr>status := ''pending'', max_attendees := Some 1\<rparr>)
   \<and> \<not> is_group_member demo_pending_db 1 ''5''
   \<and> find (\<lambda>a. ea_event_id a = 1 \<and> ea_user_id a = ''5'') (event_attendees demo_pending_db) = None
   \<and> event_unconfirm (in_thread ''5'' ''event unconfirm'') demo_pending_db
       = (Ok, demo_pending_db\<lparr>event_attendees :=
                [\<lparr>ea_event_id = 1, ea_user_id = ''7'', rsvp_status = ''ATTENDING''\<rparr>,
                 \<lparr>ea_event_id = 1, ea_user_id = ''8'', rsvp_status = ''ATTENDING''\<rparr>]\<rparr>)"
  by code_simp

subsection \<open>A waiting attendee without a Users row\<close>

text \<open>
  The run from the empty database. The administrator 7 founds the group Hikers, which
  makes 7 a member and a leader and makes no Users row. User 8 joins, which makes a
  Users row for 8. User 8 creates an event with room for one and is its one
  \<open>ATTENDING\<close> record. User 7 confirms and, the event being full, is recorded as
  \<open>WAITLIST\<close>. Every list the engine hands over in this run and in the two commands
  below has at most one row, so its order plays no part.
\<close>

lemma hike_full_db_reached:
  "group_create (in_lobby ''7'' ''circle new name=Hikers event_approval_mode=none'') empty_db
     = (Ok, founded_db)
   \<and> group_join (in_lobby ''8'' ''circle join name=Hikers'') founded_db = (Ok, joined_db)
   \<and> event_create ((in_channel ''8'' ''event new name=Hike date=2031-01-01 time=12:00 max=1'')
                      \<lparr>platform_thread := Some ''200''\<rparr>) joined_db = (Ok, hike_db)
   \<and> event_confirm (in_thread ''7'' ''event confirm'') hike_db = (Ok, hike_full_db)"
  by code_simp

text \<open>
  C4. After the run above, user 8 withdraws. The record of 8 is deleted, and a
  \<open>WAITLIST\<close> record exists, that of 7. But the attendee query joins EventAttendees
  with Users, 7 has no row there, the list handed to the handler is empty, and nobody
  is promoted: 7 stays on the waiting list of an event that has a free place.
\<close>

theorem waitlisted_founder_is_not_promoted:
  "group_create (in_lobby ''7'' ''circle new name=Hikers event_approval_mode=none'') empty_db
     = (Ok, founded_db)
   \<and> group_join (in_lobby ''8'' ''circle join name=Hikers'') founded_db = (Ok, joined_db)
   \<and> event_create ((in_channel ''8'' ''event new name=Hike date=2031-01-01 time=12:00 max=1'')
                      \<lparr>platform_thread := Some ''200''\<rparr>) joined_db = (Ok, hike_db)
   \<and> event_confirm (in_thread ''7'' ''event confirm'') hike_db = (Ok, hike_full_db)
   \<and> filter (\<lambda>a. rsvp_status a = ''WAITLIST'')
        (event_attendees (remove_event_attendee hike_full_db 1 ''8''))
       = [\<lparr>ea_event_id = 1, ea_user_id = ''7'', rsvp_status = ''WAITLIST''\<rparr>]
   \<and> get_event_attendees (query_order (in_thread ''8'' ''event unconfirm''))
        (remove_event_attendee hike_full_db 1 ''8'') 1 = []
   \<and> event_unconfirm (in_thread ''8'' ''event unconfirm'') hike_full_db
       = (Ok, hike_db\<lparr>event_attendees :=
                [\<lparr>ea_event_id = 1, ea_user_id = ''7'', rsvp_status = ''WAITLIST''\<rparr>]\<rparr>)"
proof -
  have "filter (\<lambda>a. rsvp_status a = ''WAITLIST'')
        (event_attendees (remove_event_attendee hike_full_db 1 ''8''))
       = [\<lparr>ea_event_id = 1, ea_user_id = ''7'', rsvp_status = ''WAITLIST''\<rparr>]
   \<and> get_event_attendees (query_order (in_thread ''8'' ''event unconfirm''))
        (remove_event_attendee hike_full_db 1 ''8'') 1 = []
   \<and> event_unconfirm (in_thread ''8'' ''event unconfirm'') hike_full_db
       = (Ok, hike_db\<lparr>event_attendees :=
                [\<lparr>ea_event_id = 1, ea_user_id = ''7'', rsvp_status = ''WAITLIST''\<rparr>]\<rparr>)"
    by code_simp
  with hike_full_db_reached show ?thesis by blast
qed

text \<open>
  C10. After the same run, with 8 attending and 7 waiting, user 5 withdraws: 5 is not
  a member of the group and has no record for the event. The command ends without a
  failure and deletes nothing. A \<open>WAITLIST\<close> record exists, that of 7, but the
  promotion does not fire: the list handed to the handler holds the record of 8 only,
  and the table is left as it was.
\<close>

theorem bystander_unconfirm_promotes_nobody:
  "group_create (in_lobby ''7'' ''circle new name=Hikers event_approval_mode=none'') empty_db
     = (Ok, founded_db)
   \<and> group_join (in_lobby ''8'' ''circle join name=Hikers'') founded_db = (Ok, joined_db)
   \<and> event_create ((in_channel ''8'' ''event new name=Hike date=2031-01-01 time=12:00 max=1'')
                      \<lparr>platform_thread := Some ''200''\<rparr>) joined_db = (Ok, hike_db)
   \<and> event_confirm (in_thread ''7'' ''event confirm'') hike_db = (Ok, hike_full_db)
   \<and> \<not> is_group_member hike_full_db 1 ''5''
   \<and> find (\<lambda>a. ea_event_id a = 1 \<and> ea_user_id a = ''5'') (event_attendees hike_full_db) = None
   \<and> filter (\<lambda>a. rsvp_status a = ''WAITLIST'') (event_attendees hike_full_db)
       = [\<lparr>ea_event_id = 1, ea_user_id = ''7'', rsvp_status = ''WAITLIST''\<rparr>]
   \<and> get_event_attendees (query_order (in_thread ''5'' ''event unconfirm'')) hike_full_db 1
       = [\<lparr>ea_event_id = 1, ea_user_id = ''8'', rsvp_status = ''ATTENDING''\<rparr>]
   \<and> event_unconfirm (in_thread ''5'' ''event unconfirm'') hike_full_db = (Ok, hike_full_db)"
proof -
  have "\<not> is_group_member hike_full_db 1 ''5''
   \<and> find (\<lambda>a. ea_event_id a = 1 \<and> ea_user_id a = ''5'') (event_attendees hike_full_db) = None
   \<and> filter (\<lambda>a. rsvp_status a = ''WAITLIST'') (event_attendees hike_full_db)
       = [\<lparr>ea_event_id = 1, ea_user_id = ''7'', rsvp_status = ''WAITLIST''\<rparr>]
   \<and> get_event_attendees (query_order (in_thread ''5'' ''event unconfirm'')) hike_full_db 1
       = [\<lparr>ea_event_id = 1, ea_user_id = ''8'', rsvp_status = ''ATTENDING''\<rparr>]
   \<and> event_unconfirm (in_thread ''5'' ''event unconfirm'') hike_full_db = (Ok, hike_full_db)"
    by code_simp
  with hike_full_db_reached show ?thesis by blast
qed

section \<open>Malformed arguments\<close>

text \<open>
  C1. Three commands with a malformed argument, each by an author who may issue it:
  \<open>event new\<close> with \<open>max=abc\<close>, \<open>circle new\<close> with
  \<open>contributor_events_required=many\<close>, and \<open>event change host\<close> with a user argument
  that has no digit. None ends with a message: the first two leave the handler with the
  \<open>ValueError\<close> of \<open>int\<close>, the third with the \<open>IndexError\<close> of \<open>[0]\<close> on an
  empty list.
\<close>

theorem malformed_arguments_raise:
  "fst (event_create
          (in_channel ''8'' ''event new name=Party date=2999-01-01 time=19:00 max=abc'') demo_db)
     = Raised ValueError
   \<and> fst (group_create
          (in_channel ''7'' ''circle new name=Bikers contributor_events_required=many'') demo_db)
     = Raised ValueError
   \<and> fst (event_change_host (in_thread ''7'' ''event change host user=@bob'') demo_db)
     = Raised IndexError"
  by code_simp

section \<open>Confirming attendance\<close>

text \<open>
  What \<open>event_confirm\<close> records for a member on an approved event: \<open>WAITLIST\<close> when
  the event has a cap other than zero and the \<open>ATTENDING\<close> records the engine hands
  over are at least as many, \<open>ATTENDING\<close> otherwise. The upsert leaves one row for the pair, with the
  status given, and doing it twice is doing it once; so a second confirmation changes
  nothing when the event is not full either before or after the first.
\<close>

lemma confirm_by_capacity:
  assumes "get_event_from_thread ctx db = Some event" "status event = ''approved''"
    and "get_group db (ev_group_id event) = Some grp"
    and "is_group_member db (group_id grp) (author_id ctx)"
  shows "event_confirm ctx db
     = (Ok, add_event_attendee db (event_id event) (author_id ctx)
              (if (\<exists>cap. max_attendees event = Some cap \<and> cap \<noteq> 0
                         \<and> cap \<le> int (length (filter (\<lambda>a. rsvp_status a = ''ATTENDING'')
                                   (get_event_attendees (query_order ctx) db (event_id event)))))
               then ''WAITLIST'' else ''ATTENDING''))"
  using assms
  by (auto simp: event_confirm_def Let_def event_is_full_def split: option.splits)

lemma add_event_attendee_cases:
  "add_event_attendee db eid uid st
     = (if \<exists>a \<in> set (event_attendees db). ea_event_id a = eid \<and> ea_user_id a = uid
        then db\<lparr>event_attendees :=
                  map (\<lambda>a. if ea_event_id a = eid \<and> ea_user_id a = uid
                            then a\<lparr>rsvp_status := st\<rparr> else a) (event_attendees db)\<rparr>
        else db\<lparr>event_attendees := event_attendees db
                  @ [\<lparr>ea_event_id = eid, ea_user_id = uid, rsvp_status = st\<rparr>]\<rparr>)"
  unfolding add_event_attendee_def find_None_iff by auto

lemma bex_map_preserved:
  assumes "\<And>a. K (f a) = K a"
  shows "(\<exists>a \<in> set (map f xs). K a) = (\<exists>a \<in> set xs. K a)"
  using assms by (induction xs) simp_all

lemma ball_map_established:
  assumes "\<And>a. K (f a) \<Longrightarrow> Q (f a)"
  shows "\<forall>a \<in> set (map f xs). K a \<longrightarrow> Q a"
  using assms by (induction xs) simp_all

lemma status_update_has_key:
  "(\<exists>a \<in> set (map (\<lambda>a. if ea_event_id a = eid \<and> ea_user_id a = uid
                               then a\<lparr>rsvp_status := st\<rparr> else a) xs).
       ea_event_id a = eid \<and> ea_user_id a = uid)
   = (\<exists>a \<in> set xs. ea_event_id a = eid \<and> ea_user_id a = uid)"
  by (rule bex_map_preserved) simp

lemma status_update_sets:
  "\<forall>a \<in> set (map (\<lambda>a. if ea_event_id a = eid \<and> ea_user_id a = uid
                             then a\<lparr>rsvp_status := st\<rparr> else a) xs).
      ea_event_id a = eid \<and> ea_user_id a = uid \<longrightarrow> rsvp_status a = st"
  by (rule ball_map_established) (simp split: if_splits)

lemma add_event_attendee_recorded:
  "(\<exists>a \<in> set (event_attendees (add_event_attendee db eid uid st)).
      ea_event_id a = eid \<and> ea_user_id a = uid)
   \<and> (\<forall>a \<in> set (event_attendees (add_event_attendee db eid uid st)).
      ea_event_id a = eid \<and> ea_user_id a = uid \<longrightarrow> rsvp_status a = st)"
proof (cases "\<exists>a \<in> set (event_attendees db). ea_event_id a = eid \<and> ea_user_id a = uid")
  case True
  then have rows: "event_attendees (add_event_attendee db eid uid st)
      = map (\<lambda>a. if ea_event_id a = eid \<and> ea_user_id a = uid
                  then a\<lparr>rsvp_status := st\<rparr> else a) (event_attendees db)"
    by (simp add: add_event_attendee_cases)
  show ?thesis
    unfolding rows status_update_has_key using True status_update_sets by blast
next
  case False
  then show ?thesis
    by (auto simp: add_event_attendee_cases)
qed

lemma status_update_twice:
  "map (\<lambda>a. if ea_event_id a = eid \<and> ea_user_id a = uid then a\<lparr>rsvp_status := st\<rparr> else a)
     (map (\<lambda>a. if ea_event_id a = eid \<and> ea_user_id a = uid then a\<lparr>rsvp_status := st\<rparr> else a) xs)
   = map (\<lambda>a. if ea_event_id a = eid \<and> ea_user_id a = uid then a\<lparr>rsvp_status := st\<rparr> else a) xs"
  by (induction xs) auto

lemma add_event_attendee_twice:
  "add_event_attendee (add_event_attendee db eid uid st) eid uid st
     = add_event_attendee db eid uid st"
proof (cases "\<exists>a \<in> set (event_attendees db). ea_event_id a = eid \<and> ea_user_id a = uid")
  case True
  then have "\<exists>a \<in> set (map (\<lambda>a. if ea_event_id a = eid \<and> ea_user_id a = uid
                                   then a\<lparr>rsvp_status := st\<rparr> else a) (event_attendees db)).
               ea_event_id a = eid \<and> ea_user_id a = uid"
    by (simp only: status_update_has_key)
  with True show ?thesis
    by (simp add: add_event_attendee_cases status_update_twice)
next
  case False
  then have same: "map (\<lambda>a. if ea_event_id a = eid \<and> ea_user_id a = uid
                        then a\<lparr>rsvp_status := st\<rparr> else a) (event_attendees db)
              = event_attendees db"
    by (intro map_idI) auto
  have first: "add_event_attendee db eid uid st
      = db\<lparr>event_attendees := event_attendees db
              @ [\<lparr>ea_event_id = eid, ea_user_id = uid, rsvp_status = st\<rparr>]\<rparr>"
    using False by (simp add: add_event_attendee_cases)
  show ?thesis
    unfolding first by (simp add: add_event_attendee_cases same)
qed

lemma key_count:
  "distinct (map (\<lambda>a. (ea_event_id a, ea_user_id a)) xs) \<Longrightarrow>
   length (filter (\<lambda>a. ea_event_id a = eid \<and> ea_user_id a = uid) xs)
     = (if \<exists>a \<in> set xs. ea_event_id a = eid \<and> ea_user_id a = uid then 1 else 0)"
proof (induction xs)
  case Nil
  then show ?case by simp
next
  case (Cons x xs)
  then have notin: "(ea_event_id x, ea_user_id x) \<notin> (\<lambda>a. (ea_event_id a, ea_user_id a)) ` set xs"
    and ih: "length (filter (\<lambda>a. ea_event_id a = eid \<and> ea_user_id a = uid) xs)
     = (if \<exists>a \<in> set xs. ea_event_id a = eid \<and> ea_user_id a = uid then 1 else 0)"
    by simp_all
  show ?case
  proof (cases "ea_event_id x = eid \<and> ea_user_id x = uid")
    case True
    with notin have "\<not> (\<exists>a \<in> set xs. ea_event_id a = eid \<and> ea_user_id a = uid)"
      by (auto simp: image_iff)
    with True ih show ?thesis by simp
  next
    case False
    with ih show ?thesis by auto
  qed
qed

lemma status_update_keys:
  "map (\<lambda>a. (ea_event_id a, ea_user_id a))
     (map (\<lambda>a. if ea_event_id a = eid \<and> ea_user_id a = uid then a\<lparr>rsvp_status := st\<rparr> else a) xs)
   = map (\<lambda>a. (ea_event_id a, ea_user_id a)) xs"
  by (induction xs) auto

lemma add_event_attendee_keeps_keys_distinct:
  assumes "attendee_keys_distinct db"
  shows "attendee_keys_distinct (add_event_attendee db eid uid st)"
proof (cases "\<exists>a \<in> set (event_attendees db). ea_event_id a = eid \<and> ea_user_id a = uid")
  case True
  then have rows: "event_attendees (add_event_attendee db eid uid st)
      = map (\<lambda>a. if ea_event_id a = eid \<and> ea_user_id a = uid
                  then a\<lparr>rsvp_status := st\<rparr> else a) (event_attendees db)"
    by (simp add: add_event_attendee_cases)
  show ?thesis
    using assms unfolding attendee_keys_distinct_def rows status_update_keys .
next
  case False
  with assms show ?thesis
    by (auto simp: attendee_keys_distinct_def add_event_attendee_cases image_iff)
qed

lemma add_event_attendee_one_row:
  assumes "attendee_keys_distinct db"
  shows "length (filter (\<lambda>a. ea_event_id a = eid \<and> ea_user_id a = uid)
                   (event_attendees (add_event_attendee db eid uid st))) = 1"
proof -
  have "distinct (map (\<lambda>a. (ea_event_id a, ea_user_id a))
                   (event_attendees (add_event_attendee db eid uid st)))"
    using add_event_attendee_keeps_keys_distinct [OF assms]
    by (simp add: attendee_keys_distinct_def)
  from key_count [OF this, of eid uid] add_event_attendee_recorded [of db eid uid st]
  show ?thesis by simp
qed

lemma confirm_twice_when_not_full:
  assumes "get_event_from_thread ctx db = Some event" "status event = ''approved''"
    and "get_group db (ev_group_id event) = Some grp"
    and "is_group_member db (group_id grp) (author_id ctx)"
    and "\<not> event_is_full event (filter (\<lambda>a. rsvp_status a = ''ATTENDING'')
             (get_event_attendees (query_order ctx) db (event_id event)))"
    and "\<not> event_is_full event (filter (\<lambda>a. rsvp_status a = ''ATTENDING'')
             (get_event_attendees (query_order ctx)
                (add_event_attendee db (event_id event) (author_id ctx) ''ATTENDING'')
                (event_id event)))"
  shows "event_confirm ctx (snd (event_confirm ctx db)) = event_confirm ctx db
       \<and> event_confirm ctx db
           = (Ok, add_event_attendee db (event_id event) (author_id ctx) ''ATTENDING'')"
proof -
  let ?db1 = "add_event_attendee db (event_id event) (author_id ctx) ''ATTENDING''"
  have first: "event_confirm ctx db = (Ok, ?db1)"
    using assms(1-5) by (simp add: event_confirm_def Let_def)
  have same: "events ?db1 = events db" "groups ?db1 = groups db"
      "group_members ?db1 = group_members db"
    by (simp_all add: add_event_attendee_def)
  have "get_event_from_thread ctx ?db1 = get_event_from_thread ctx db"
      "get_group ?db1 (ev_group_id event) = get_group db (ev_group_id event)"
      "is_group_member ?db1 (group_id grp) (author_id ctx)
         = is_group_member db (group_id grp) (author_id ctx)"
    by (simp_all add: get_event_from_thread_def get_group_def is_group_member_def same)
  with assms(1,3,4) have "get_event_from_thread ctx ?db1 = Some event"
      "get_group ?db1 (ev_group_id event) = Some grp"
      "is_group_member ?db1 (group_id grp) (author_id ctx)"
    by simp_all
  then have "event_confirm ctx ?db1
      = (Ok, add_event_attendee ?db1 (event_id event) (author_id ctx) ''ATTENDING'')"
    using assms(2,6) by (simp add: event_confirm_def Let_def)
  then show ?thesis
    by (simp add: first add_event_attendee_twice)
qed

text \<open>
  C3. An approved event with \<open>max_attendees = 0\<close> and one \<open>ATTENDING\<close> record (the
  count is at least the cap): member 8 confirms and is recorded as \<open>ATTENDING\<close>, not
  as \<open>WAITLIST\<close>.
\<close>

theorem zero_cap_is_no_cap:
  "get_event_from_thread (in_thread ''8'' ''event confirm'') demo_zero_cap_db
     = Some (demo_event\<lparr>max_attendees := Some 0\<rparr>)
   \<and> is_group_member demo_zero_cap_db 1 ''8''
   \<and> filter (\<lambda>a. rsvp_status a = ''ATTENDING'')
        (get_event_attendees (query_order (in_thread ''8'' ''event confirm'')) demo_zero_cap_db 1)
       = [\<lparr>ea_event_id = 1, ea_user_id = ''7'', rsvp_status = ''ATTENDING''\<rparr>]
   \<and> event_confirm (in_thread ''8'' ''event confirm'') demo_zero_cap_db
       = (Ok, demo_zero_cap_db\<lparr>event_attendees :=
                [\<lparr>ea_event_id = 1, ea_user_id = ''7'', rsvp_status = ''ATTENDING''\<rparr>,
                 \<lparr>ea_event_id = 1, ea_user_id = ''8'', rsvp_status = ''ATTENDING''\<rparr>]\<rparr>)"
  by code_simp

text \<open>
  C5. An approved event with room for two and one \<open>ATTENDING\<close> record, so not full:
  member 8 confirms and is recorded as \<open>ATTENDING\<close>; 8 confirms again and the one
  record of 8 is now \<open>WAITLIST\<close>, because the second call counts the record the
  first call made.
\<close>

theorem second_confirm_moves_to_waitlist:
  "max_attendees demo_event = Some 2
   \<and> filter (\<lambda>a. rsvp_status a = ''ATTENDING'')
        (get_event_attendees (query_order (in_thread ''8'' ''event confirm'')) demo_db 1)
       = [\<lparr>ea_event_id = 1, ea_user_id = ''7'', rsvp_status = ''ATTENDING''\<rparr>]
   \<and> event_confirm (in_thread ''8'' ''event confirm'') demo_db
       = (Ok, demo_db\<lparr>event_attendees :=
                [\<lparr>ea_event_id = 1, ea_user_id = ''7'', rsvp_status = ''ATTENDING''\<rparr>,
                 \<lparr>ea_event_id = 1, ea_user_id = ''8'', rsvp_status = ''ATTENDING''\<rparr>]\<rparr>)
   \<and> event_confirm (in_thread ''8'' ''event confirm'')
        (snd (event_confirm (in_thread ''8'' ''event confirm'') demo_db))
       = (Ok, demo_db\<lparr>event_attendees :=
                [\<lparr>ea_event_id = 1, ea_user_id = ''7'', rsvp_status = ''ATTENDING''\<rparr>,
                 \<lparr>ea_event_id = 1, ea_user_id = ''8'', rsvp_status = ''WAITLIST''\<rparr>]\<rparr>)"
  by code_simp

section \<open>Dates in the past\<close>

text \<open>
  C2, as stated, fails: user 8 creates an event for 2030-01-01 12:00 while the clock
  reads exactly 2030-01-01 12:00:00. The instant is not strictly after the clock, and
  the event is created.
\<close>

theorem instant_equal_to_now_is_accepted:
  "strptime_datetime (''2030-01-01'' @ '' '' @ ''12:00'')
     = Some (now (in_channel ''8'' ''event new name=Party date=2030-01-01 time=12:00''))
   \<and> \<not> dt_less (now (in_channel ''8'' ''event new name=Party date=2030-01-01 time=12:00''))
               (now (in_channel ''8'' ''event new name=Party date=2030-01-01 time=12:00''))
   \<and> fst (event_create (in_channel ''8'' ''event new name=Party date=2030-01-01 time=12:00'')
            demo_db) = Ok"
  by code_simp

lemma event_create_past:
  assumes "get_truthy (parse_command_args (content ctx)) ''date'' = Some d"
    and "get_truthy (parse_command_args (content ctx)) ''time'' = Some t"
    and "strptime_datetime (d @ '' '' @ t) = Some dt"
    and "dt_less dt (now ctx)"
  shows "\<exists>f. event_create ctx db = (Failed f, db)"
  using assms by (simp add: event_create_def Let_def split: option.splits)

text \<open>
  C2, amended. Creation: when date and time are given and parse to an instant that is
  strictly before the clock, \<open>event_create\<close> ends with a failure and the database
  unchanged, whatever the other fields; the failure is \<open>InvalidDateTime\<close> once the
  message is in a group channel, the author may create events and a name is given.
  Modification: when the author is the host or a leader, \<open>max\<close> (if given) is a
  number, a date or a time is given and the merged instant is strictly before the clock,
  \<open>event_modify\<close> ends with \<open>InvalidDateTime\<close> and the database unchanged.
\<close>

theorem past_date_time_is_refused:
  "(\<forall>d t dt. get_truthy (parse_command_args (content ctx)) ''date'' = Some d
       \<and> get_truthy (parse_command_args (content ctx)) ''time'' = Some t
       \<and> strptime_datetime (d @ '' '' @ t) = Some dt
       \<and> dt_less dt (now ctx)
      \<longrightarrow> (\<exists>f. event_create ctx db = (Failed f, db))
        \<and> (\<forall>grp name. get_group_from_channel ctx db = Some grp
              \<and> (new_members_can_create_events grp
                  \<or> is_group_leader db (group_id grp) (author_id ctx))
              \<and> get_truthy (parse_command_args (content ctx)) ''name'' = Some name
             \<longrightarrow> event_create ctx db = (Failed InvalidDateTime, db)))
   \<and> (\<forall>event m merged. get_event_from_thread ctx db = Some event
       \<and> host_or_leader ctx db event = None
       \<and> modify_max_attendees (parse_command_args (content ctx)) = Inr m
       \<and> (dict_has (parse_command_args (content ctx)) ''date''
           \<or> dict_has (parse_command_args (content ctx)) ''time'')
       \<and> merge_date_time (parse_command_args (content ctx)) (date_time event) = Some merged
       \<and> dt_less merged (now ctx)
      \<longrightarrow> event_modify ctx db = (Failed InvalidDateTime, db))"
proof (intro conjI allI impI)
  fix d t dt
  assume a: "get_truthy (parse_command_args (content ctx)) ''date'' = Some d
       \<and> get_truthy (parse_command_args (content ctx)) ''time'' = Some t
       \<and> strptime_datetime (d @ '' '' @ t) = Some dt
       \<and> dt_less dt (now ctx)"
  then show "\<exists>f. event_create ctx db = (Failed f, db)"
    by (intro event_create_past [of ctx d t dt]) simp_all
  fix grp name
  assume "get_group_from_channel ctx db = Some grp
              \<and> (new_members_can_create_events grp
                  \<or> is_group_leader db (group_id grp) (author_id ctx))
              \<and> get_truthy (parse_command_args (content ctx)) ''name'' = Some name"
  with a show "event_create ctx db = (Failed InvalidDateTime, db)"
    by (auto simp: event_create_def Let_def)
next
  fix event m merged
  assume b: "get_event_from_thread ctx db = Some event
       \<and> host_or_leader ctx db event = None
       \<and> modify_max_attendees (parse_command_args (content ctx)) = Inr m
       \<and> (dict_has (parse_command_args (content ctx)) ''date''
           \<or> dict_has (parse_command_args (content ctx)) ''time'')
       \<and> merge_date_time (parse_command_args (content ctx)) (date_time event) = Some merged
       \<and> dt_less merged (now ctx)"
  then have "parse_command_args (content ctx) \<noteq> []"
    by (auto simp: dict_has_def)
  with b show "event_modify ctx db = (Failed InvalidDateTime, db)"
    by (auto simp: event_modify_def Let_def modify_date_time_def)
qed

text \<open>
  With the clock at 2030-01-01 12:00: creating an event for 2020-01-01 10:00 and moving
  the demo event to 2020-05-05 are both refused.
\<close>

theorem past_date_time_is_refused_witness:
  "get_truthy (parse_command_args (content
       (in_channel ''8'' ''event new name=Party date=2020-01-01 time=10:00''))) ''date''
     = Some ''2020-01-01''
   \<and> get_truthy (parse_command_args (content
       (in_channel ''8'' ''event new name=Party date=2020-01-01 time=10:00''))) ''time''
     = Some ''10:00''
   \<and> strptime_datetime (''2020-01-01'' @ '' '' @ ''10:00'')
     = Some (demo_time\<lparr>dt_year := 2020, dt_hour := 10\<rparr>)
   \<and> dt_less (demo_time\<lparr>dt_year := 2020, dt_hour := 10\<rparr>)
        (now (in_channel ''8'' ''event new name=Party date=2020-01-01 time=10:00''))
   \<and> event_create (in_channel ''8'' ''event new name=Party date=2020-01-01 time=10:00'') demo_db
     = (Failed InvalidDateTime, demo_db)
   \<and> merge_date_time (parse_command_args (content (in_thread ''7'' ''event modify date=2020-05-05'')))
        (date_time demo_event)
     = Some (demo_time\<lparr>dt_year := 2020, dt_month := 5, dt_day := 5\<rparr>)
   \<and> event_modify (in_thread ''7'' ''event modify date=2020-05-05'') demo_db
     = (Failed InvalidDateTime, demo_db)"
proof -
  let ?c = "in_channel ''8'' ''event new name=Party date=2020-01-01 time=10:00''"
  let ?m = "in_thread ''7'' ''event modify date=2020-05-05''"
  have h1: "get_truthy (parse_command_args (content ?c)) ''date'' = Some ''2020-01-01''"
    and h2: "get_truthy (parse_command_args (content ?c)) ''time'' = Some ''10:00''"
    and h3: "strptime_datetime (''2020-01-01'' @ '' '' @ ''10:00'')
               = Some (demo_time\<lparr>dt_year := 2020, dt_hour := 10\<rparr>)"
    and h4: "dt_less (demo_time\<lparr>dt_year := 2020, dt_hour := 10\<rparr>) (now ?c)"
    and h5: "get_group_from_channel ?c demo_db = Some demo_group"
    and h6: "new_members_can_create_events demo_group"
    and h7: "get_truthy (parse_command_args (content ?c)) ''name'' = Some ''Party''"
    by code_simp+
  have g1: "get_event_from_thread ?m demo_db = Some demo_event"
    and g2: "host_or_leader ?m demo_db demo_event = None"
    and g3: "modify_max_attendees (parse_command_args (content ?m)) = Inr None"
    and g4: "dict_has (parse_command_args (content ?m)) ''date''"
    and g5: "merge_date_time (parse_command_args (content ?m)) (date_time demo_event)
               = Some (demo_time\<lparr>dt_year := 2020, dt_month := 5, dt_day := 5\<rparr>)"
    and g6: "dt_less (demo_time\<lparr>dt_year := 2020, dt_month := 5, dt_day := 5\<rparr>) (now ?m)"
    by code_simp+
  note inst1 = past_date_time_is_refused [of ?c demo_db]
  note inst2 = past_date_time_is_refused [of ?m demo_db]
  have r1: "event_create ?c demo_db = (Failed InvalidDateTime, demo_db)"
    using inst1 h1 h2 h3 h4 h5 h6 h7 by blast
  have r2: "event_modify ?m demo_db = (Failed InvalidDateTime, demo_db)"
    using inst2 g1 g2 g3 g4 g5 g6 by blast
  from h1 h2 h3 h4 r1 g5 r2 show ?thesis by blast
qed

section \<open>Modifying an event\<close>





section \<open>Quoted arguments\<close>

text \<open>
  C6, as stated, fails: in \<open>x k="v w" k=z\<close> the quoted pass stores \<open>v w\<close> under \<open>k\<close>
  and the unquoted pass, which runs second, overwrites it with \<open>z\<close>. The unquoted
  match takes precedence.
\<close>

theorem unquoted_duplicate_wins:
  "dict_get (parse_command_args (''x '' @ quoted_group0 ''k'' ''v w'' @ '' k=z'')) ''k''
     = Some ''z''
   \<and> ''z'' \<noteq> ''v w''"
  by code_simp

subsection \<open>The two passes on a well-separated text\<close>

lemma dq_not_word: "\<not> is_word dq"
  by (simp add: is_word_def dq_def)

lemma eq_not_word: "\<not> is_word CHR ''=''"
  by (simp add: is_word_def)

lemma eq_not_dq: "CHR ''='' \<noteq> dq"
  by (simp add: dq_def)

lemma takeWhile_upto: "a \<notin> set xs \<Longrightarrow> takeWhile (\<lambda>c. c \<noteq> a) (xs @ a # ys) = xs"
  by (induction xs) auto

lemma dropWhile_upto: "a \<notin> set xs \<Longrightarrow> dropWhile (\<lambda>c. c \<noteq> a) (xs @ a # ys) = a # ys"
  by (induction xs) auto

lemma split_command:
  assumes "\<forall>c\<in>set lead. is_space c"
    and "cmd \<noteq> []" "\<forall>c\<in>set cmd. \<not> is_space c" "sp \<noteq> []" "\<forall>c\<in>set sp. is_space c"
    and "rest \<noteq> []" "\<not> is_space (hd rest)"
  shows "split_maxsplit1 (lead @ cmd @ sp @ rest) = [cmd, rest]"
proof -
  obtain c cs where cmd: "cmd = c # cs" using assms(2) by (cases cmd) auto
  obtain s ss where sp: "sp = s # ss" using assms(4) by (cases sp) auto
  obtain r rs where rest: "rest = r # rs" using assms(6) by (cases rest) auto
  have a0: "dropWhile is_space (cmd @ sp @ rest) = cmd @ sp @ rest"
    using assms(3) cmd by simp
  have a: "dropWhile is_space (lead @ cmd @ sp @ rest) = cmd @ sp @ rest"
    using assms(1) a0 by (simp add: dropWhile_append2)
  have b: "takeWhile (\<lambda>c. \<not> is_space c) (cmd @ sp @ rest) = cmd"
    using assms(3,5) sp by (simp add: takeWhile_append2)
  have c: "dropWhile (\<lambda>c. \<not> is_space c) (cmd @ sp @ rest) = sp @ rest"
    using assms(3,5) sp by (simp add: dropWhile_append2)
  have d: "dropWhile is_space (sp @ rest) = rest"
    using assms(5,7) rest by (simp add: dropWhile_append2)
  show ?thesis
    unfolding split_maxsplit1_def a Let_def b c d using cmd rest by simp
qed

lemma match_quoted_needs_dq: "dq \<notin> set s \<Longrightarrow> match_quoted s = None"
proof -
  assume n: "dq \<notin> set s"
  have "set (dropWhile is_word s) \<subseteq> set s"
    by (auto dest: set_dropWhileD)
  with n have "dq \<notin> set (dropWhile is_word s)" by auto
  then show ?thesis
    by (auto simp: match_quoted_def Let_def split: list.splits)
qed

lemma quoted_finditer_no_dq: "dq \<notin> set s \<Longrightarrow> quoted_finditer s = []"
  by (induction s) (simp_all add: match_quoted_needs_dq)

lemma match_quoted_before_token:
  assumes "dq \<notin> set p" "p \<noteq> []" "\<not> is_word (last p)" "r \<noteq> []" "is_word (hd r)"
  shows "match_quoted (p @ r) = None"
proof -
  have lp: "last p \<in> set p" using assms(2) by simp
  have t: "takeWhile is_word (p @ r) = takeWhile is_word p"
    using lp assms(3) by (rule takeWhile_append1)
  have d: "dropWhile is_word (p @ r) = dropWhile is_word p @ r"
    using lp assms(3) by (rule dropWhile_append1)
  have ne: "dropWhile is_word p \<noteq> []"
    using lp assms(3) by auto
  have sub: "dq \<notin> set (dropWhile is_word p)"
    using assms(1) by (auto dest: set_dropWhileD)
  obtain h rs where r: "r = h # rs" using assms(4) by (cases r) auto
  with assms(5) have h: "h \<noteq> dq" using dq_not_word by auto
  obtain x xs where dp: "dropWhile is_word p = x # xs"
    using ne by (cases "dropWhile is_word p") auto
  have second: "hd (xs @ r) \<noteq> dq"
    using sub dp r h by (cases xs) auto
  have dd: "dropWhile is_word (p @ r) = x # (xs @ r)"
    using d dp by simp
  obtain y ys where xr: "xs @ r = y # ys"
    using r by (cases "xs @ r") auto
  with second have "y \<noteq> dq" by simp
  then show ?thesis
    unfolding match_quoted_def Let_def dd xr by simp
qed

lemma quoted_finditer_skips:
  assumes "dq \<notin> set p" "p = [] \<or> \<not> is_word (last p)" "r \<noteq> []" "is_word (hd r)"
  shows "quoted_finditer (p @ r) = quoted_finditer r"
  using assms(1,2)
proof (induction p)
  case Nil
  then show ?case by simp
next
  case (Cons c p)
  have m: "match_quoted ((c # p) @ r) = None"
    using Cons.prems assms(3,4) by (intro match_quoted_before_token) auto
  have "p = [] \<or> \<not> is_word (last p)"
    using Cons.prems(2) by (cases p) auto
  with Cons have "quoted_finditer (p @ r) = quoted_finditer r" by simp
  with m show ?case by simp
qed

lemma match_quoted_token:
  assumes "k \<noteq> []" "\<forall>c\<in>set k. is_word c" "dq \<notin> set v"
  shows "match_quoted (k @ CHR ''='' # dq # v @ dq # post) = Some (k, v, post)"
proof -
  have t: "takeWhile is_word (k @ CHR ''='' # dq # v @ dq # post) = k"
    using assms(2) eq_not_word by (simp add: takeWhile_append2)
  have d: "dropWhile is_word (k @ CHR ''='' # dq # v @ dq # post)
             = CHR ''='' # dq # v @ dq # post"
    using assms(2) eq_not_word by (simp add: dropWhile_append2)
  have tv: "takeWhile (\<lambda>c. c \<noteq> dq) (v @ dq # post) = v"
    using assms(3) by (rule takeWhile_upto)
  have dv: "dropWhile (\<lambda>c. c \<noteq> dq) (v @ dq # post) = dq # post"
    using assms(3) by (rule dropWhile_upto)
  show ?thesis
    unfolding match_quoted_def Let_def t d using assms(1) by (simp add: tv dv)
qed

lemma quoted_finditer_token:
  assumes "k \<noteq> []" "\<forall>c\<in>set k. is_word c" "dq \<notin> set v"
    and "dq \<notin> set pre" "pre = [] \<or> \<not> is_word (last pre)"
  shows "quoted_finditer (pre @ quoted_group0 k v @ post) = (k, v) # quoted_finditer post"
proof -
  let ?r = "k @ [CHR ''='', dq] @ v @ [dq] @ post"
  obtain c cs where k: "k = c # cs" using assms(1) by (cases k) auto
  have r: "?r \<noteq> []" "is_word (hd ?r)" using k assms(2) by auto
  have skip: "quoted_finditer (pre @ ?r) = quoted_finditer ?r"
    using assms(4,5) r by (rule quoted_finditer_skips)
  have m: "match_quoted (c # (cs @ [CHR ''='', dq] @ v @ [dq] @ post)) = Some (k, v, post)"
    using match_quoted_token [OF assms(1,2,3), of post] k by simp
  have "quoted_finditer ?r = quoted_finditer (c # (cs @ [CHR ''='', dq] @ v @ [dq] @ post))"
    using k by simp
  also have "\<dots> = (k, v) # quoted_finditer post"
    by (simp only: quoted_finditer.simps m option.case prod.case)
  finally have "quoted_finditer ?r = (k, v) # quoted_finditer post" .
  with skip show ?thesis
    by (simp add: quoted_group0_def)
qed

lemma quoted_finditer_segments:
  "well_separated segs post \<Longrightarrow>
   quoted_finditer (segments_text segs post) = map snd segs"
proof (induction segs post rule: well_separated.induct)
  case (1 post)
  then show ?case by (simp add: quoted_finditer_no_dq)
next
  case (2 sep k v segs post)
  then have "quoted_finditer (sep @ quoted_group0 k v @ segments_text segs post)
               = (k, v) # quoted_finditer (segments_text segs post)"
    by (intro quoted_finditer_token) simp_all
  with 2 show ?case by simp
qed

lemma str_remove_no_sublist: "\<not> sublist old s \<Longrightarrow> str_remove old s = s"
proof (induction s)
  case Nil
  then show ?case by simp
next
  case (Cons c cs)
  then have "\<not> prefix old (c # cs)" and "\<not> sublist old cs"
    by (simp_all add: sublist_Cons_right)
  with Cons.IH show ?case by simp
qed

lemma token_not_prefix:
  assumes "dq \<notin> set p" "p \<noteq> []" "dq \<notin> set k"
  shows "\<not> prefix (k @ [CHR ''='', dq] @ v @ [dq]) (p @ k @ [CHR ''='', dq] @ v @ [dq] @ post)"
proof
  assume "prefix (k @ [CHR ''='', dq] @ v @ [dq]) (p @ k @ [CHR ''='', dq] @ v @ [dq] @ post)"
  then obtain z where z: "p @ k @ [CHR ''='', dq] @ v @ [dq] @ post
                            = (k @ [CHR ''='', dq] @ v @ [dq]) @ z"
    by (auto simp: prefix_def)
  have "takeWhile (\<lambda>c. c \<noteq> dq) ((p @ k @ [CHR ''='']) @ dq # (v @ [dq] @ post))
          = p @ k @ [CHR ''='']"
    using assms(1,3) eq_not_dq by (intro takeWhile_upto) auto
  then have "takeWhile (\<lambda>c. c \<noteq> dq) (p @ k @ [CHR ''='', dq] @ v @ [dq] @ post)
          = p @ k @ [CHR ''='']"
    by simp
  moreover have "takeWhile (\<lambda>c. c \<noteq> dq) ((k @ [CHR ''='']) @ dq # (v @ [dq] @ z))
          = k @ [CHR ''='']"
    using assms(3) eq_not_dq by (intro takeWhile_upto) auto
  then have "takeWhile (\<lambda>c. c \<noteq> dq) ((k @ [CHR ''='', dq] @ v @ [dq]) @ z) = k @ [CHR ''='']"
    by simp
  ultimately have "p @ k @ [CHR ''=''] = k @ [CHR ''='']" using z by simp
  then have "length (p @ k @ [CHR ''='']) = length (k @ [CHR ''=''])" by simp
  with assms(2) show False by simp
qed

lemma str_remove_head: "old \<noteq> [] \<Longrightarrow> str_remove old (old @ s) = str_remove old s"
  by (cases old) simp_all

lemma str_remove_token:
  assumes "dq \<notin> set pre" "dq \<notin> set k"
  shows "str_remove (quoted_group0 k v) (pre @ quoted_group0 k v @ post)
           = pre @ str_remove (quoted_group0 k v) post"
  using assms(1)
proof (induction pre)
  case Nil
  have "quoted_group0 k v \<noteq> []" by (simp add: quoted_group0_def)
  then have "str_remove (quoted_group0 k v) (quoted_group0 k v @ post)
               = str_remove (quoted_group0 k v) post"
    by (rule str_remove_head)
  then show ?case by simp
next
  case (Cons c p)
  have "\<not> prefix (quoted_group0 k v) ((c # p) @ quoted_group0 k v @ post)"
    using token_not_prefix [of "c # p" k v post] Cons.prems assms(2)
    by (simp add: quoted_group0_def)
  with Cons show ?case by simp
qed

lemma quoted_pass_segments:
  "well_separated segs post \<Longrightarrow> dq \<notin> set p \<Longrightarrow>
   quoted_pass (map snd segs) (d, p @ segments_text segs post)
     = (fold (\<lambda>(sep, k, v). dict_set (lower k) v) segs d, p @ separators_text segs post)"
proof (induction segs post arbitrary: d p rule: well_separated.induct)
  case (1 post)
  then show ?case by simp
next
  case (2 sep k v segs post)
  have kdq: "dq \<notin> set k" using 2(2) dq_not_word by auto
  have pdq: "dq \<notin> set (p @ sep)" using 2(2,3) by simp
  have "str_remove (quoted_group0 k v) ((p @ sep) @ quoted_group0 k v @ segments_text segs post)
          = (p @ sep) @ str_remove (quoted_group0 k v) (segments_text segs post)"
    using pdq kdq by (rule str_remove_token)
  also have "\<dots> = (p @ sep) @ segments_text segs post"
    using 2(2) by (simp add: str_remove_no_sublist)
  finally have rm: "str_remove (quoted_group0 k v)
                      (p @ sep @ quoted_group0 k v @ segments_text segs post)
                    = (p @ sep) @ segments_text segs post"
    by simp
  have ws: "well_separated segs post" using 2(2) by simp
  from "2.IH" [OF ws pdq, of "dict_set (lower k) v d"] rm show ?case
    by simp
qed

lemma word_not_space: "is_word c \<Longrightarrow> \<not> is_space c"
  by (auto simp: is_word_def is_space_def latin1_word_def split: if_splits)

lemma dict_get_dict_set: "dict_get (dict_set k v d) k' = (if k' = k then Some v else dict_get d k')"
  by (induction d) (auto simp: dict_get_def)

lemma dict_set_keys: "fst ` set (dict_set k v d) = insert k (fst ` set d)"
proof (induction d)
  case Nil
  show ?case by simp
next
  case (Cons x d)
  obtain a b where x: "x = (a, b)" by (cases x)
  show ?case
  proof (cases "k = a")
    case True
    then show ?thesis by (simp add: x)
  next
    case False
    with Cons show ?thesis by (simp add: x insert_commute)
  qed
qed

lemma dict_set_distinct: "distinct (map fst d) \<Longrightarrow> distinct (map fst (dict_set k v d))"
  by (induction d) (auto simp: dict_set_keys)

lemma unquoted_pass_distinct:
  "distinct (map fst d) \<Longrightarrow> distinct (map fst (unquoted_pass ms d))"
  by (induction ms arbitrary: d) (auto simp: dict_set_distinct)

lemma quoted_pass_distinct:
  "distinct (map fst d) \<Longrightarrow> distinct (map fst (fst (quoted_pass ms (d, t))))"
  by (induction ms arbitrary: d t) (auto simp: dict_set_distinct)

lemma parse_command_args_distinct: "distinct (map fst (parse_command_args msg))"
proof -
  have "distinct (map fst (unquoted_pass (unquoted_finditer t) d))"
    if "quoted_pass ms ([], t0) = (d, t)" for d t ms t0
  proof -
    have "distinct (map fst (fst (quoted_pass ms ([], t0))))"
      by (rule quoted_pass_distinct) simp
    with that show ?thesis
      by (simp add: unquoted_pass_distinct)
  qed
  then show ?thesis
    by (auto simp: parse_command_args_def Let_def split: list.splits prod.splits)
qed

lemma unquoted_pass_other:
  "\<forall>m \<in> set ms. lower (fst m) \<noteq> key \<Longrightarrow> dict_get (unquoted_pass ms d) key = dict_get d key"
  by (induction ms arbitrary: d) (auto simp: dict_get_dict_set)

lemma unquoted_pass_same:
  "\<exists>m \<in> set ms. lower (fst m) = key \<Longrightarrow>
   \<exists>m \<in> set ms. lower (fst m) = key \<and> dict_get (unquoted_pass ms d) key = Some (snd m)"
proof (induction ms arbitrary: d)
  case Nil
  then show ?case by simp
next
  case (Cons a ms)
  obtain k v where a: "a = (k, v)" by (cases a)
  show ?case
  proof (cases "\<exists>m \<in> set ms. lower (fst m) = key")
    case True
    from Cons.IH [OF True, of "dict_set (lower k) v d"] show ?thesis
      by (auto simp: a)
  next
    case False
    with Cons.prems a have key: "lower k = key" by auto
    from False have "dict_get (unquoted_pass ms (dict_set (lower k) v d)) key
                       = dict_get (dict_set (lower k) v d) key"
      by (intro unquoted_pass_other) auto
    with key show ?thesis
      by (auto simp: a dict_get_dict_set)
  qed
qed

lemma fold_dict_set_other:
  "\<forall>seg \<in> set segs. lower (fst (snd seg)) \<noteq> key \<Longrightarrow>
   dict_get (fold (\<lambda>(sep, k, v). dict_set (lower k) v) segs d) key = dict_get d key"
  by (induction segs arbitrary: d) (auto simp: dict_get_dict_set)

lemma quoted_dict_last:
  assumes "segs = before @ (sep, k, v) # after"
    and "\<forall>seg \<in> set after. lower (fst (snd seg)) \<noteq> lower k"
  shows "dict_get (quoted_dict segs) (lower k) = Some v"
proof -
  let ?f = "\<lambda>(sep, k, v). dict_set (lower k) v"
  have "quoted_dict segs = fold ?f after (dict_set (lower k) v (fold ?f before []))"
    by (simp add: quoted_dict_def assms(1))
  then show ?thesis
    using fold_dict_set_other [OF assms(2)] by (simp add: dict_get_dict_set)
qed

text \<open>
  The restrictions are needed. When the text of a token occurs again further on, as
  in \<open>x k="v" a="x k="v"\<close>, its removal cuts the later token \<open>a="x k="\<close> open, and the
  unquoted pass captures \<open>a\<close> with the value \<open>"x\<close>, opening quote included. And in
  \<open>x k=k="v""v"\<close> the removal of the token \<open>k="v"\<close> leaves \<open>k="v"\<close>, which the unquoted
  pass captures with its quotes.
\<close>

lemma recurring_token_is_recaptured:
  "dict_get (parse_command_args
       (''x '' @ quoted_group0 ''k'' ''v'' @ '' '' @ quoted_group0 ''a'' ''x k='' @ ''v'' @ [dq]))
       ''a''
     = Some (dq # ''x'')
   \<and> parse_command_args
       (''x k='' @ quoted_group0 ''k'' ''v'' @ [dq] @ ''v'' @ [dq])
     = [(''k'', dq # ''v'' @ [dq])]"
  by code_simp

text \<open>
  C6, amended. Let the message be a command word, whitespace, and then a
  well-separated argument text: quoted tokens \<open>k="v"\<close> with text between them, where
  all the double quotes are those of the tokens, each key is a non-empty run of word
  characters that no word character precedes, and the text of a token does not occur
  again after the token. Then the quoted pass stores each value under its lower-cased
  key and deletes the tokens, so that the unquoted pass reads the text between the
  tokens and cannot capture any part of a token: the result is \<open>quoted_dict\<close> updated
  with the unquoted matches of that text, and it has one entry per key. A token
  \<open>k="v"\<close> that no later token shares its lower-cased key with is mapped to \<open>v\<close>, when
  no unquoted match has that key either; and every key that an unquoted match has is
  mapped to the value of such an unquoted match, also when a quoted token has it.
\<close>

theorem quoted_tokens_then_unquoted_pass:
  assumes "\<forall>c\<in>set lead. is_space c"
    and "cmd \<noteq> []" "\<forall>c\<in>set cmd. \<not> is_space c" "sp \<noteq> []" "\<forall>c\<in>set sp. is_space c"
    and "segments_text segs post \<noteq> []" "\<not> is_space (hd (segments_text segs post))"
    and "well_separated segs post"
  shows "parse_command_args (lead @ cmd @ sp @ segments_text segs post)
           = unquoted_pass (unquoted_finditer (separators_text segs post)) (quoted_dict segs)
     \<and> distinct (map fst (parse_command_args (lead @ cmd @ sp @ segments_text segs post)))
     \<and> (\<forall>before sep k v after.
           segs = before @ (sep, k, v) # after
         \<and> (\<forall>seg \<in> set after. lower (fst (snd seg)) \<noteq> lower k)
         \<and> (\<forall>m \<in> set (unquoted_finditer (separators_text segs post)). lower (fst m) \<noteq> lower k)
          \<longrightarrow> dict_get (parse_command_args (lead @ cmd @ sp @ segments_text segs post)) (lower k)
                = Some v)
     \<and> (\<forall>key. (\<exists>m \<in> set (unquoted_finditer (separators_text segs post)). lower (fst m) = key)
          \<longrightarrow> (\<exists>m \<in> set (unquoted_finditer (separators_text segs post)). lower (fst m) = key
                \<and> dict_get (parse_command_args (lead @ cmd @ sp @ segments_text segs post)) key
                    = Some (snd m)))"
proof -
  let ?rest = "segments_text segs post"
  let ?u = "unquoted_finditer (separators_text segs post)"
  have split: "split_maxsplit1 (lead @ cmd @ sp @ ?rest) = [cmd, ?rest]"
    using assms(1-7) by (rule split_command)
  have fi: "quoted_finditer ?rest = map snd segs"
    using assms(8) by (rule quoted_finditer_segments)
  have "quoted_pass (map snd segs) ([], [] @ ?rest)
          = (fold (\<lambda>(sep, k, v). dict_set (lower k) v) segs [], [] @ separators_text segs post)"
    using assms(8) by (intro quoted_pass_segments) simp_all
  then have qp: "quoted_pass (map snd segs) ([], ?rest)
          = (quoted_dict segs, separators_text segs post)"
    by (simp add: quoted_dict_def)
  have run: "parse_command_args (lead @ cmd @ sp @ ?rest) = unquoted_pass ?u (quoted_dict segs)"
    by (simp add: parse_command_args_def split fi qp del: append_assoc)
  have c2: "distinct (map fst (parse_command_args (lead @ cmd @ sp @ ?rest)))"
    by (rule parse_command_args_distinct)
  have c3: "dict_get (unquoted_pass ?u (quoted_dict segs)) (lower k) = Some v"
    if "segs = before @ (sep, k, v) # after"
      and "\<forall>seg \<in> set after. lower (fst (snd seg)) \<noteq> lower k"
      and "\<forall>m \<in> set ?u. lower (fst m) \<noteq> lower k"
    for before sep k v after
    using unquoted_pass_other [OF that(3), of "quoted_dict segs"] quoted_dict_last [OF that(1,2)]
    by simp
  have c4: "\<exists>m \<in> set ?u. lower (fst m) = key
              \<and> dict_get (unquoted_pass ?u (quoted_dict segs)) key = Some (snd m)"
    if "\<exists>m \<in> set ?u. lower (fst m) = key" for key
    using that by (rule unquoted_pass_same)
  from c2 c3 c4 show ?thesis
    unfolding run by blast
qed

text \<open>
  The example of the handler's own help text,
  \<open>event new name="Game Night" date="2024-03-20" time="19:00"\<close>, gives the three
  entries; and in \<open>event new Name="Game Night" max=5 name=x\<close> the key \<open>name\<close> is
  mapped to \<open>x\<close>.
\<close>

theorem quoted_tokens_then_unquoted_pass_witness:
  "parse_command_args (''event'' @ '' '' @ segments_text
       [(''new '', ''name'', ''Game Night''), ('' '', ''date'', ''2024-03-20''),
        ('' '', ''time'', ''19:00'')] [])
     = [(''name'', ''Game Night''), (''date'', ''2024-03-20''), (''time'', ''19:00'')]
   \<and> dict_get (parse_command_args (''event'' @ '' '' @ segments_text
       [(''new '', ''name'', ''Game Night''), ('' '', ''date'', ''2024-03-20''),
        ('' '', ''time'', ''19:00'')] [])) (lower ''date'') = Some ''2024-03-20''
   \<and> unquoted_finditer (separators_text [(''new '', ''Name'', ''Game Night'')] '' max=5 name=x'')
       = [(''max'', ''5''), (''name'', ''x'')]
   \<and> dict_get (parse_command_args (''event'' @ '' '' @ segments_text
       [(''new '', ''Name'', ''Game Night'')] '' max=5 name=x'')) ''name'' = Some ''x''"
proof -
  let ?s3 = "[(''new '', ''name'', ''Game Night''), ('' '', ''date'', ''2024-03-20''),
              ('' '', ''time'', ''19:00'')]"
  let ?s1 = "[(''new '', ''Name'', ''Game Night'')]"
  have h: "\<forall>c\<in>set []. is_space c" "''event'' \<noteq> []" "\<forall>c\<in>set ''event''. \<not> is_space c"
      "'' '' \<noteq> []" "\<forall>c\<in>set '' ''. is_space c"
    by (simp_all add: is_space_def)
  have g3: "segments_text ?s3 [] \<noteq> []" "\<not> is_space (hd (segments_text ?s3 []))"
      "well_separated ?s3 []"
    by code_simp+
  have g1: "segments_text ?s1 '' max=5 name=x'' \<noteq> []"
      "\<not> is_space (hd (segments_text ?s1 '' max=5 name=x''))"
      "well_separated ?s1 '' max=5 name=x''"
    by code_simp+
  note a = quoted_tokens_then_unquoted_pass [OF h g3, simplified append_Nil]
  note b = quoted_tokens_then_unquoted_pass [OF h g1, simplified append_Nil]
  have e3: "unquoted_pass (unquoted_finditer (separators_text ?s3 [])) (quoted_dict ?s3)
              = [(''name'', ''Game Night''), (''date'', ''2024-03-20''), (''time'', ''19:00'')]"
    by code_simp
  have u3: "\<forall>m \<in> set (unquoted_finditer (separators_text ?s3 [])). lower (fst m) \<noteq> lower ''date''"
    by code_simp
  have l3: "\<forall>seg \<in> set [('' '', ''time'', ''19:00'')]. lower (fst (snd seg)) \<noteq> lower ''date''"
    by code_simp
  have d3: "?s3 = [(''new '', ''name'', ''Game Night'')] @ ('' '', ''date'', ''2024-03-20'')
                    # [('' '', ''time'', ''19:00'')]"
    by simp
  have r1: "parse_command_args (''event'' @ '' '' @ segments_text ?s3 [])
              = [(''name'', ''Game Night''), (''date'', ''2024-03-20''), (''time'', ''19:00'')]"
    using a e3 by (simp only:)
  have r2: "dict_get (parse_command_args (''event'' @ '' '' @ segments_text ?s3 []))
              (lower ''date'') = Some ''2024-03-20''"
    using a d3 l3 u3 by blast
  have u1: "unquoted_finditer (separators_text ?s1 '' max=5 name=x'')
              = [(''max'', ''5''), (''name'', ''x'')]"
    by code_simp
  have n1: "\<exists>m \<in> set (unquoted_finditer (separators_text ?s1 '' max=5 name=x'')).
              lower (fst m) = ''name''"
    unfolding u1 by code_simp
  obtain m where m: "m \<in> set (unquoted_finditer (separators_text ?s1 '' max=5 name=x''))"
      "lower (fst m) = ''name''"
      "dict_get (parse_command_args (''event'' @ '' '' @ segments_text ?s1 '' max=5 name=x''))
         ''name'' = Some (snd m)"
    using b n1 by blast
  have "\<forall>m \<in> set [(''max'', ''5''), (''name'', ''x'')]. lower (fst m) = ''name'' \<longrightarrow> snd m = ''x''"
    by code_simp
  with m(1,2) have "snd m = ''x''"
    unfolding u1 by blast
  with m(3) have r3: "dict_get (parse_command_args
        (''event'' @ '' '' @ segments_text ?s1 '' max=5 name=x'')) ''name'' = Some ''x''"
    by (simp only:)
  from r1 r2 u1 r3 show ?thesis by blast
qed

end
